theory Spec2Isabelle
  imports Main "HOL-Library.Word"
begin

section \<open>Cache.h: a reference-counted cache\<close>

text \<open>
  The generic class \<open>Cache<Key, T, Hash>\<close> of \<open>filament/src/Cache.h\<close>. The hash map
  \<open>tsl::robin_map<Key, Entry, Hash>\<close> is a finite map from keys to entries; the
  iteration order and the bucket layout of the map are not modelled, no operation of the
  class reads them. A failed \<open>FILAMENT_CHECK_PRECONDITION\<close> or
  \<open>FILAMENT_CHECK_POSTCONDITION\<close> is a panic carrying the fixed part of the message
  of the source; every function that can reach one returns \<open>panic + result\<close>.
  \<open>size_t\<close> is taken as 64 bits wide; no theorem depends on the width.
\<close>

type_synonym u32 = "32 word"
type_synonym u64 = "64 word"
type_synonym size_t = "64 word"

datatype panic =
    PreconditionPanic string
  | PostconditionPanic string
  | DanglingPointer

text \<open>\<open>struct Entry { uint32_t referenceCount; T value; }\<close>\<close>

record 'v Entry =
  referenceCount :: u32
  entry_value :: 'v

type_synonym ('k, 'v) Map = "'k \<rightharpoonup> 'v Entry"

text \<open>
  \<open>class Handle\<close>: \<open>mImpl\<close> is the address of the \<open>Impl\<close> the handle belongs to
  (\<open>None\<close> is the null pointer of a moved-from handle), \<open>mKey\<close> a copy of the key and
  \<open>mHash\<close> the hash computed by \<open>get\<close>.
\<close>

record 'k Handle =
  mImpl :: "nat option"
  mKey :: 'k
  mHash :: size_t

text \<open>\<open>bool Handle::operator==(const Handle& rhs)\<close>: the hash is not compared.\<close>

definition Handle_eq :: "'k Handle \<Rightarrow> 'k Handle \<Rightarrow> bool" where
  "Handle_eq lhs rhs = (mImpl lhs = mImpl rhs \<and> mKey lhs = mKey rhs)"

subsection \<open>Impl\<close>

text \<open>
  \<open>Impl::at\<close>: \<open>mMap.find(key, hash)\<close> with the precondition that the entry is there.
  The precomputed hash only speeds the lookup up; every caller passes the hash that a
  handle stores, which is the hash of the handle's key.
\<close>

definition Impl_at :: "('k, 'v) Map \<Rightarrow> 'k \<Rightarrow> size_t \<Rightarrow> panic + 'v Entry" where
  "Impl_at mMap key hash =
     (case mMap key of
        None \<Rightarrow> Inl (PreconditionPanic ''Cache is somehow missing entry'')
      | Some it \<Rightarrow> Inr it)"

text \<open>\<open>Impl::acquire\<close>: \<open>at(key, hash).value().referenceCount++\<close> on a \<open>uint32_t\<close>.\<close>

definition Impl_acquire :: "('k, 'v) Map \<Rightarrow> 'k \<Rightarrow> size_t \<Rightarrow> panic + ('k, 'v) Map" where
  "Impl_acquire mMap key hash =
     (case Impl_at mMap key hash of
        Inl p \<Rightarrow> Inl p
      | Inr it \<Rightarrow> Inr (mMap(key \<mapsto> it\<lparr>referenceCount := referenceCount it + 1\<rparr>)))"

text \<open>
  \<open>Impl::release\<close>: \<open>if (--it.value().referenceCount == 0) mMap.erase(it)\<close>.
\<close>

definition Impl_release :: "('k, 'v) Map \<Rightarrow> 'k \<Rightarrow> size_t \<Rightarrow> panic + ('k, 'v) Map" where
  "Impl_release mMap key hash =
     (case Impl_at mMap key hash of
        Inl p \<Rightarrow> Inl p
      | Inr it \<Rightarrow>
          (let c = referenceCount it - 1 in
           if c = 0 then Inr (mMap(key := None))
           else Inr (mMap(key \<mapsto> it\<lparr>referenceCount := c\<rparr>))))"

text \<open>
  \<open>Impl::get\<close>. \<open>Hash\<close> is the functor \<open>Hash{}\<close>, \<open>this\<close> the address of the
  \<open>Impl\<close>. The factory is a callable of the caller: it is run in a world \<open>'w\<close> (whatever
  it captures and touches), returns \<open>std::optional<T>\<close> and the world it leaves; a
  factory that is not called leaves the world as it was. The factory does not reach
  \<open>mMap\<close>. The result is the \<open>ReturnValue\<close> (the handle and what the reference
  \<open>T&\<close> refers to, the value stored in the entry of \<open>key\<close>), the map and the world.
\<close>

definition Impl_get ::
  "('k \<Rightarrow> size_t) \<Rightarrow> nat \<Rightarrow> 'k \<Rightarrow> ('w \<Rightarrow> 'v option \<times> 'w) \<Rightarrow> ('k, 'v) Map \<Rightarrow> 'w
     \<Rightarrow> ('k Handle \<times> 'v) option \<times> ('k, 'v) Map \<times> 'w" where
  "Impl_get Hash this key factory mMap w =
     (let hash = Hash key in
      case mMap key of
        Some it \<Rightarrow>
          (Some (\<lparr>mImpl = Some this, mKey = key, mHash = hash\<rparr>, entry_value it),
           mMap(key \<mapsto> it\<lparr>referenceCount := referenceCount it + 1\<rparr>), w)
      | None \<Rightarrow>
          (case factory w of
             (Some v, w') \<Rightarrow>
               (Some (\<lparr>mImpl = Some this, mKey = key, mHash = hash\<rparr>, v),
                mMap(key \<mapsto> \<lparr>referenceCount = 1, entry_value = v\<rparr>), w')
           | (None, w') \<Rightarrow> (None, mMap, w')))"

text \<open>\<open>Impl::~Impl\<close>: \<open>FILAMENT_CHECK_PRECONDITION(mMap.empty())\<close>.\<close>

definition Impl_dtor :: "('k, 'v) Map \<Rightarrow> panic + unit" where
  "Impl_dtor mMap =
     (if dom mMap = {} then Inr () else Inl (PreconditionPanic ''Freed a non-empty Cache''))"

subsection \<open>Handle objects\<close>

text \<open>
  The special member functions of \<open>Handle\<close> work on objects: \<open>this\<close> and \<open>rhs\<close>
  may be the same object, and several handles point to one \<open>Impl\<close>. The heap holds the
  \<open>Impl\<close> objects (their maps) and the handle objects, each by its address. A pointer
  to an object that is not in the heap is undefined behaviour in the source and
  \<open>DanglingPointer\<close> here.
\<close>

record ('k, 'v) heap =
  impls :: "nat \<rightharpoonup> ('k, 'v) Map"
  handles :: "nat \<rightharpoonup> 'k Handle"

definition and_then :: "panic + 'a \<Rightarrow> ('a \<Rightarrow> panic + 'b) \<Rightarrow> panic + 'b" where
  "and_then r f = (case r of Inl p \<Rightarrow> Inl p | Inr x \<Rightarrow> f x)"

text \<open>\<open>mImpl->f(...)\<close> for a member function \<open>f\<close> of \<open>Impl\<close> that updates the map.\<close>

definition call_impl ::
  "nat \<Rightarrow> (('k, 'v) Map \<Rightarrow> panic + ('k, 'v) Map) \<Rightarrow> ('k, 'v) heap \<Rightarrow> panic + ('k, 'v) heap" where
  "call_impl impl f h =
     (case impls h impl of
        None \<Rightarrow> Inl DanglingPointer
      | Some mMap \<Rightarrow> and_then (f mMap) (\<lambda>mMap'. Inr (h\<lparr>impls := (impls h)(impl \<mapsto> mMap')\<rparr>)))"

text \<open>\<open>if (mImpl) { mImpl->release(mKey, mHash); }\<close> for the handle object at \<open>a\<close>.\<close>

definition release_if_set :: "nat \<Rightarrow> ('k, 'v) heap \<Rightarrow> panic + ('k, 'v) heap" where
  "release_if_set a h =
     (case handles h a of
        None \<Rightarrow> Inl DanglingPointer
      | Some x \<Rightarrow>
          (case mImpl x of
             None \<Rightarrow> Inr h
           | Some impl \<Rightarrow> call_impl impl (\<lambda>mMap. Impl_release mMap (mKey x) (mHash x)) h))"

text \<open>\<open>if (mImpl) { mImpl->acquire(mKey, mHash); }\<close> for the handle object at \<open>a\<close>.\<close>

definition acquire_if_set :: "nat \<Rightarrow> ('k, 'v) heap \<Rightarrow> panic + ('k, 'v) heap" where
  "acquire_if_set a h =
     (case handles h a of
        None \<Rightarrow> Inl DanglingPointer
      | Some x \<Rightarrow>
          (case mImpl x of
             None \<Rightarrow> Inr h
           | Some impl \<Rightarrow> call_impl impl (\<lambda>mMap. Impl_acquire mMap (mKey x) (mHash x)) h))"

text \<open>
  \<open>Handle(Handle&& rhs)\<close>: the new object at \<open>this\<close> takes the three fields, then
  \<open>rhs.mImpl = nullptr\<close>.
\<close>

definition Handle_move_ctor :: "nat \<Rightarrow> nat \<Rightarrow> ('k, 'v) heap \<Rightarrow> panic + ('k, 'v) heap" where
  "Handle_move_ctor this rhs h =
     (case handles h rhs of
        None \<Rightarrow> Inl DanglingPointer
      | Some r \<Rightarrow>
          Inr (h\<lparr>handles := (handles h)(this \<mapsto> r, rhs \<mapsto> r\<lparr>mImpl := None\<rparr>)\<rparr>))"

text \<open>
  \<open>Handle& operator=(Handle&& rhs)\<close>: three field assignments from \<open>rhs\<close>, then
  \<open>rhs.mImpl = nullptr\<close>, which is read back from the heap since \<open>rhs\<close> may be
  \<open>*this\<close>. Nothing else is done.
\<close>

definition Handle_move_assign :: "nat \<Rightarrow> nat \<Rightarrow> ('k, 'v) heap \<Rightarrow> panic + ('k, 'v) heap" where
  "Handle_move_assign this rhs h =
     (case (handles h this, handles h rhs) of
        (Some t, Some r) \<Rightarrow>
          (let hs = (handles h)(this \<mapsto> \<lparr>mImpl = mImpl r, mKey = mKey r, mHash = mHash r\<rparr>)
           in case hs rhs of
                None \<Rightarrow> Inl DanglingPointer
              | Some r' \<Rightarrow> Inr (h\<lparr>handles := hs(rhs \<mapsto> r'\<lparr>mImpl := None\<rparr>)\<rparr>))
      | _ \<Rightarrow> Inl DanglingPointer)"

text \<open>
  \<open>Handle(const Handle& rhs)\<close>: the new object at \<open>this\<close> takes the three fields and
  acquires.
\<close>

definition Handle_copy_ctor :: "nat \<Rightarrow> nat \<Rightarrow> ('k, 'v) heap \<Rightarrow> panic + ('k, 'v) heap" where
  "Handle_copy_ctor this rhs h =
     (case handles h rhs of
        None \<Rightarrow> Inl DanglingPointer
      | Some r \<Rightarrow> acquire_if_set this (h\<lparr>handles := (handles h)(this \<mapsto> r)\<rparr>))"

text \<open>
  \<open>Handle& operator=(const Handle& rhs)\<close>: release through \<open>*this\<close>, acquire through
  \<open>rhs\<close>, then the three field assignments.
\<close>

definition Handle_copy_assign :: "nat \<Rightarrow> nat \<Rightarrow> ('k, 'v) heap \<Rightarrow> panic + ('k, 'v) heap" where
  "Handle_copy_assign this rhs h =
     and_then (release_if_set this h) (\<lambda>h1.
     and_then (acquire_if_set rhs h1) (\<lambda>h2.
       (case handles h2 rhs of
          None \<Rightarrow> Inl DanglingPointer
        | Some r \<Rightarrow>
            Inr (h2\<lparr>handles :=
              (handles h2)(this \<mapsto> \<lparr>mImpl = mImpl r, mKey = mKey r, mHash = mHash r\<rparr>)\<rparr>))))"

text \<open>\<open>~Handle()\<close>: release, and the object is gone.\<close>

definition Handle_dtor :: "nat \<Rightarrow> ('k, 'v) heap \<Rightarrow> panic + ('k, 'v) heap" where
  "Handle_dtor this h =
     and_then (release_if_set this h) (\<lambda>h1. Inr (h1\<lparr>handles := (handles h1)(this := None)\<rparr>))"

text \<open>
  The handles of the heap that refer to the entry of \<open>key\<close> in the \<open>Impl\<close> at
  \<open>impl\<close>, among the addresses \<open>as\<close>.
\<close>

definition referencing :: "('k, 'v) heap \<Rightarrow> nat \<Rightarrow> 'k \<Rightarrow> nat list \<Rightarrow> nat list" where
  "referencing h impl key as =
     filter (\<lambda>a. case handles h a of
                    None \<Rightarrow> False
                  | Some x \<Rightarrow> mImpl x = Some impl \<and> mKey x = key) as"

subsection \<open>A client of one cache\<close>

text \<open>
  A client of one cache calls \<open>get\<close>, copies handles it holds and destroys handles it
  holds. \<open>Get key r\<close> is \<open>get(key, factory)\<close> with a factory that returns \<open>r\<close> and
  counts its own run in the world, \<open>Copy key\<close> the copy constructor applied to a handle
  of \<open>key\<close> (\<open>Impl::acquire\<close>), \<open>Drop key\<close> the destructor of a handle of \<open>key\<close>
  (\<open>Impl::release\<close>). Next to the map, the client's state records how many handles of
  each key the client holds, and the world of the factories: how often the factory of
  each key has run.
\<close>

datatype ('k, 'v) op = Get 'k "'v option" | Copy 'k | Drop 'k

record ('k, 'v) client =
  cache :: "('k, 'v) Map"
  live :: "'k \<Rightarrow> nat"
  calls :: "'k \<Rightarrow> nat"

definition counting :: "'k \<Rightarrow> 'v option \<Rightarrow> ('k \<Rightarrow> nat) \<Rightarrow> 'v option \<times> ('k \<Rightarrow> nat)" where
  "counting key r c = (r, c(key := Suc (c key)))"

definition init_client :: "('k, 'v) client" where
  "init_client = \<lparr>cache = Map.empty, live = (\<lambda>_. 0), calls = (\<lambda>_. 0)\<rparr>"

fun step :: "('k \<Rightarrow> size_t) \<Rightarrow> nat \<Rightarrow> ('k, 'v) op \<Rightarrow> ('k, 'v) client \<Rightarrow> panic + ('k, 'v) client" where
  "step Hash this (Get key r) s =
     (case Impl_get Hash this key (counting key r) (cache s) (calls s) of
        (None, m, c) \<Rightarrow> Inr (s\<lparr>cache := m, calls := c\<rparr>)
      | (Some _, m, c) \<Rightarrow>
          Inr (s\<lparr>cache := m, calls := c, live := (live s)(key := Suc (live s key))\<rparr>))"
| "step Hash this (Copy key) s =
     (case Impl_acquire (cache s) key (Hash key) of
        Inl p \<Rightarrow> Inl p
      | Inr m \<Rightarrow> Inr (s\<lparr>cache := m, live := (live s)(key := Suc (live s key))\<rparr>))"
| "step Hash this (Drop key) s =
     (case Impl_release (cache s) key (Hash key) of
        Inl p \<Rightarrow> Inl p
      | Inr m \<Rightarrow> Inr (s\<lparr>cache := m, live := (live s)(key := live s key - 1)\<rparr>))"

fun run :: "('k \<Rightarrow> size_t) \<Rightarrow> nat \<Rightarrow> ('k, 'v) op list \<Rightarrow> ('k, 'v) client \<Rightarrow> panic + ('k, 'v) client" where
  "run Hash this [] s = Inr s"
| "run Hash this (a # as) s =
     (case step Hash this a s of Inl p \<Rightarrow> Inl p | Inr s' \<Rightarrow> run Hash this as s')"

text \<open>
  What a client may do: copy and destroy only handles it holds, and hold at most
  \<open>2 ^ 32 - 1\<close> handles of one key at a time, the largest value of the
  \<open>uint32_t referenceCount\<close>.
\<close>

fun legal :: "('k, 'v) op \<Rightarrow> ('k, 'v) client \<Rightarrow> bool" where
  "legal (Get key r) s = (live s key < 2 ^ 32 - 1)"
| "legal (Copy key) s = (0 < live s key \<and> live s key < 2 ^ 32 - 1)"
| "legal (Drop key) s = (0 < live s key)"

fun legal_run :: "('k \<Rightarrow> size_t) \<Rightarrow> nat \<Rightarrow> ('k, 'v) op list \<Rightarrow> ('k, 'v) client \<Rightarrow> bool" where
  "legal_run Hash this [] s = True"
| "legal_run Hash this (a # as) s =
     (legal a s \<and>
      (case step Hash this a s of Inl p \<Rightarrow> True | Inr s' \<Rightarrow> legal_run Hash this as s'))"

text \<open>
  The key has an entry before every operation of the run; the last operation may be the
  one that evicts it.
\<close>

fun stays_present :: "('k \<Rightarrow> size_t) \<Rightarrow> nat \<Rightarrow> 'k \<Rightarrow> ('k, 'v) op list \<Rightarrow> ('k, 'v) client \<Rightarrow> bool" where
  "stays_present Hash this key [] s = True"
| "stays_present Hash this key (a # as) s =
     (cache s key \<noteq> None \<and>
      (case step Hash this a s of Inl p \<Rightarrow> True | Inr s' \<Rightarrow> stays_present Hash this key as s'))"

text \<open>The reference count of a key: that of its entry, 0 when it has none.\<close>

definition refCountOf :: "('k, 'v) Map \<Rightarrow> 'k \<Rightarrow> u32" where
  "refCountOf mMap key = (case mMap key of None \<Rightarrow> 0 | Some it \<Rightarrow> referenceCount it)"

text \<open>
  The client's count of the handles of each key is what the map records: a key has an
  entry exactly when handles of it are held, and the reference count of the entry is
  their number.
\<close>

definition accounted :: "('k, 'v) client \<Rightarrow> bool" where
  "accounted s =
     (\<forall>key. unat (refCountOf (cache s) key) = live s key \<and>
            (cache s key \<noteq> None \<longleftrightarrow> 0 < refCountOf (cache s) key))"

section \<open>MaterialDefinition.cpp: parsing a material package\<close>

text \<open>
  \<open>MaterialParser\<close>, \<open>FEngine\<close> and the enumerations of the backend are declared in
  other files of Filament (\<open>MaterialParser.h\<close>, \<open>details/Engine.h\<close>,
  \<open>backend/DriverEnums.h\<close>). A parser object is what its member functions return for
  the package it was built from: \<open>parse()\<close>, and the getters \<open>bool getX(T* out)\<close>,
  which write \<open>*out\<close> only when the package has the chunk (\<open>None\<close> when it has not).
  Of the results of \<open>parse()\<close> the code names \<open>SUCCESS\<close> and
  \<open>ERROR_MISSING_BACKEND\<close>; \<open>ERROR_OTHER\<close> is every other result. Of the backends it
  names \<open>NOOP\<close> and \<open>DEFAULT\<close>; the others are the remaining ones. The engine is the
  four settings that the functions below read.
\<close>

datatype ParseResult = SUCCESS | ERROR_MISSING_BACKEND | ERROR_OTHER

datatype Backend = DEFAULT | OPENGL | VULKAN | METAL | WEBGPU | NOOP

datatype ShaderModel = MOBILE | DESKTOP

record MaterialParser =
  parse :: ParseResult
  getMaterialVersion :: "u32 option"
  getCacheId :: "u64 option"
  getMaterialCrc32 :: "u32 option"
  getShaderModels :: "u32 option"

record 'l FEngine =
  getBackend :: Backend
  getShaderLanguage :: "'l list"
  check_crc32_after_loading :: bool
  getShaderModel :: ShaderModel

text \<open>
  What the two functions take from elsewhere: the constant \<open>MATERIAL_VERSION\<close>, the
  constructor of \<open>MaterialParser\<close>, the CRC32 of the package without its CRC chunk
  (\<open>hash::crc32Update(0, payload, size - 16, crc32Table)\<close>) and the number of a shader
  model (\<open>static_cast<uint32_t>(shaderModel)\<close>). The private constructor
  \<open>MaterialDefinition(engine, parser)\<close> copies what the parser reports into the fields
  of the definition and cannot fail in a release build (its checks are
  \<open>assert_invariant\<close>); the definition it builds is a value of type \<open>'d\<close>, by
  \<open>new_MaterialDefinition\<close>. The package \<open>'p\<close> is the pair of \<open>payload\<close> and
  \<open>size\<close>.
\<close>

record ('l, 'p, 'd) externals =
  MATERIAL_VERSION :: u32
  new_MaterialParser :: "'l list \<Rightarrow> 'p \<Rightarrow> MaterialParser"
  crc32Update :: "'p \<Rightarrow> u32"
  shaderModelBit :: "ShaderModel \<Rightarrow> nat"
  new_MaterialDefinition :: "'l FEngine \<Rightarrow> MaterialParser \<Rightarrow> 'd"

text \<open>
  \<open>MaterialDefinition::createParser\<close>. The result is a \<open>std::unique_ptr\<close>, \<open>None\<close>
  the null pointer. In the branch of \<open>ERROR_MISSING_BACKEND\<close> the condition of
  \<open>FILAMENT_CHECK_POSTCONDITION\<close> is false by the test that leads there. The
  \<open>assert_invariant\<close> on the backend is compiled out of release builds and is not
  modelled.
\<close>

definition createParser ::
  "('l, 'p, 'd) externals \<Rightarrow> Backend \<Rightarrow> 'l list \<Rightarrow> 'p \<Rightarrow> panic + MaterialParser option" where
  "createParser X backend languages dat =
     (let materialParser = new_MaterialParser X languages dat;
          materialResult = parse materialParser
      in if materialResult = ERROR_MISSING_BACKEND then
           Inl (PostconditionPanic
             ''the material was not built for any of the backend's supported shader languages'')
         else if backend = NOOP then Inr (Some materialParser)
         else if materialResult \<noteq> SUCCESS then
           Inl (PostconditionPanic ''could not parse the material package'')
         else
           (let version = (case getMaterialVersion materialParser of None \<Rightarrow> 0 | Some v \<Rightarrow> v)
            in if version \<noteq> MATERIAL_VERSION X then
                 Inl (PostconditionPanic ''Material version mismatch'')
               else Inr (Some materialParser)))"

text \<open>
  \<open>MaterialDefinition::create\<close>. Logging and the warning about the stereoscopic type
  do not change the result and are left out.
\<close>

definition create ::
  "('l, 'p, 'd) externals \<Rightarrow> 'l FEngine \<Rightarrow> 'p \<Rightarrow> MaterialParser \<Rightarrow> 'd option" where
  "create X engine payload parser =
     (if check_crc32_after_loading engine \<and>
         (let parsedCrc32 = (case getMaterialCrc32 parser of None \<Rightarrow> 0 | Some c \<Rightarrow> c);
              expectedCrc32 = crc32Update X payload
          in parsedCrc32 \<noteq> expectedCrc32)
      then None
      else
        (let v = (case getShaderModels parser of None \<Rightarrow> 0 | Some v \<Rightarrow> v);
             shaderModel = getShaderModel engine
         in if \<not> bit v (shaderModelBit X shaderModel) then None
            else Some (new_MaterialDefinition X engine parser)))"

section \<open>MaterialCache.cpp\<close>

text \<open>
  \<open>MaterialCache::getDefinition\<close> on the map of \<open>mDefinitionCache\<close>, whose \<open>Impl\<close>
  is at \<open>this\<close>; \<open>Hash\<close> is \<open>std::hash<uint64_t>\<close>. The factory captures what it
  needs and touches nothing else: its world is \<open>unit\<close>.
\<close>

definition getDefinition ::
  "('l, 'p, 'd) externals \<Rightarrow> (u64 \<Rightarrow> size_t) \<Rightarrow> nat \<Rightarrow> 'l FEngine \<Rightarrow> 'p \<Rightarrow> (u64, 'd) Map
     \<Rightarrow> panic + ((u64 Handle \<times> 'd) option \<times> (u64, 'd) Map)" where
  "getDefinition X Hash this mEngine payload mDefinitionCache =
     (case createParser X (getBackend mEngine) (getShaderLanguage mEngine) payload of
        Inl p \<Rightarrow> Inl p
      | Inr None \<Rightarrow> Inr (None, mDefinitionCache)
      | Inr (Some parser) \<Rightarrow>
          (case getCacheId parser of
             None \<Rightarrow> Inr (None, mDefinitionCache)
           | Some cacheId \<Rightarrow>
               (case Impl_get Hash this cacheId (\<lambda>w. (create X mEngine payload parser, w))
                       mDefinitionCache () of
                  (r, m, _) \<Rightarrow> Inr (r, m))))"

text \<open>
  \<open>struct Specialization\<close>. \<open>Variant\<close> (of which the hash reads \<open>key\<close>),
  \<open>Program::SpecializationConstant\<close> (\<open>id\<close> and \<open>value\<close>, a value of type \<open>'c\<close>) and
  \<open>Program::PushConstant\<close> (\<open>name\<close> and \<open>type\<close>, a type \<open>'t\<close>) are declared in
  \<open>private/filament/Variant.h\<close> and \<open>backend/Program.h\<close>; they are compared field by
  field, and nothing below depends on the widths of \<open>key\<close> and \<open>id\<close>. The
  \<open>std::array\<close> of vectors is a list of lists.
\<close>

record Variant =
  variant_key :: "8 word"

record 'c SpecializationConstant =
  constant_id :: u32
  constant_value :: 'c

record 't PushConstant =
  constant_name :: string
  constant_type :: 't

record ('c, 't) Specialization =
  spec_definition :: "u64 Handle"
  variant :: Variant
  specializationConstants :: "'c SpecializationConstant list"
  pushConstants :: "'t PushConstant list list"

text \<open>\<open>Specialization::operator==\<close>\<close>

definition Specialization_eq :: "('c, 't) Specialization \<Rightarrow> ('c, 't) Specialization \<Rightarrow> bool" where
  "Specialization_eq lhs rhs =
     (Handle_eq (spec_definition lhs) (spec_definition rhs) \<and> variant lhs = variant rhs \<and>
      specializationConstants lhs = specializationConstants rhs \<and>
      pushConstants lhs = pushConstants rhs)"

text \<open>
  \<open>utils::hash::combine_fast(seed, v)\<close> is a template of \<open>utils/Hash.h\<close> and is taken
  as given: one function per type it is used at, from the seed and the value to the new
  seed. So is \<open>utils::CString::Hasher\<close>.
\<close>

record ('c, 't) hashing =
  combine_size_t :: "size_t \<Rightarrow> size_t \<Rightarrow> size_t"
  combine_u8 :: "size_t \<Rightarrow> 8 word \<Rightarrow> size_t"
  combine_u32 :: "size_t \<Rightarrow> u32 \<Rightarrow> size_t"
  combine_value :: "size_t \<Rightarrow> 'c \<Rightarrow> size_t"
  combine_type :: "size_t \<Rightarrow> 't \<Rightarrow> size_t"
  CString_Hasher :: "string \<Rightarrow> size_t"

text \<open>\<open>Specialization::Hash::operator()\<close>: the loops are folds over the seed.\<close>

definition Specialization_Hash :: "('c, 't) hashing \<Rightarrow> ('c, 't) Specialization \<Rightarrow> size_t" where
  "Specialization_Hash G v =
     (let seed = 0;
          seed = combine_size_t G seed (mHash (spec_definition v));
          seed = combine_u8 G seed (variant_key (variant v));
          seed = foldl (\<lambda>seed it.
                   combine_value G (combine_u32 G seed (constant_id it)) (constant_value it))
                   seed (specializationConstants v);
          seed = foldl (\<lambda>seed set.
                   foldl (\<lambda>seed it.
                     combine_type G
                       (combine_size_t G seed (CString_Hasher G (constant_name it)))
                       (constant_type it))
                     seed set)
                   seed (pushConstants v)
      in seed)"

text \<open>
  What goes into the hash, in the order in which it goes in, and the step that mixes one
  item into the seed.
\<close>

datatype ('c, 't) mixed = Size size_t | Byte "8 word" | Id u32 | Value 'c | Type 't

fun mix :: "('c, 't) hashing \<Rightarrow> size_t \<Rightarrow> ('c, 't) mixed \<Rightarrow> size_t" where
  "mix G seed (Size x) = combine_size_t G seed x"
| "mix G seed (Byte x) = combine_u8 G seed x"
| "mix G seed (Id x) = combine_u32 G seed x"
| "mix G seed (Value x) = combine_value G seed x"
| "mix G seed (Type x) = combine_type G seed x"

definition mixed_in :: "('c, 't) hashing \<Rightarrow> ('c, 't) Specialization \<Rightarrow> ('c, 't) mixed list" where
  "mixed_in G v =
     [Size (mHash (spec_definition v)), Byte (variant_key (variant v))]
     @ concat (map (\<lambda>it. [Id (constant_id it), Value (constant_value it)])
         (specializationConstants v))
     @ concat (map (\<lambda>set.
         concat (map (\<lambda>it. [Size (CString_Hasher G (constant_name it)), Type (constant_type it)])
           set))
         (pushConstants v))"

text \<open>A handle as \<open>Impl::get\<close> makes it: the stored hash is the hash of the key.\<close>

definition hash_of_key :: "('k \<Rightarrow> size_t) \<Rightarrow> 'k Handle \<Rightarrow> bool" where
  "hash_of_key Hash x = (mHash x = Hash (mKey x))"

text \<open>Every handle object of the heap stores the hash of its key.\<close>

definition handles_hash_of_key :: "('k \<Rightarrow> size_t) \<Rightarrow> ('k, 'v) heap \<Rightarrow> bool" where
  "handles_hash_of_key Hash h = (\<forall>a x. handles h a = Some x \<longrightarrow> hash_of_key Hash x)"

text \<open>
  \<open>MaterialCache::getProgram\<close> on the map of \<open>mProgramCache\<close>. The factory is
  \<open>[]() { return Program{}; }\<close>: it captures nothing and returns a default-constructed
  \<open>backend::Handle<backend::HwProgram>\<close>, here \<open>null_program\<close>. The parameter
  \<open>priorityQueue\<close> is not used. The copies of the key that the map and the handle keep
  copy the definition handle inside the key; that effect on the definition cache is
  outside this function's model.
\<close>

definition getProgram ::
  "'h \<Rightarrow> (('c, 't) Specialization \<Rightarrow> size_t) \<Rightarrow> nat \<Rightarrow> ('c, 't) Specialization \<Rightarrow> 'q
     \<Rightarrow> (('c, 't) Specialization, 'h) Map
     \<Rightarrow> (('c, 't) Specialization Handle \<times> 'h) option \<times> (('c, 't) Specialization, 'h) Map" where
  "getProgram null_program Hash this specialization priorityQueue mProgramCache =
     (case Impl_get Hash this specialization (\<lambda>w. (Some null_program, w)) mProgramCache () of
        (r, m, _) \<Rightarrow> (r, m))"

section \<open>Concrete inputs\<close>

text \<open>
  Values at which the theorems below are evaluated: the missing parts of the material
  code (a package is given as what the parser reads from it; its CRC32 is 51966, the
  material version 58), an engine on the OpenGL backend with the desktop shader model,
  and a specialization.
\<close>

definition example_externals :: "(nat, MaterialParser, nat) externals" where
  "example_externals =
     \<lparr>MATERIAL_VERSION = 58, new_MaterialParser = (\<lambda>languages p. p),
      crc32Update = (\<lambda>p. 51966),
      shaderModelBit = (\<lambda>m. case m of MOBILE \<Rightarrow> 1 | DESKTOP \<Rightarrow> 2),
      new_MaterialDefinition = (\<lambda>engine parser. 7)\<rparr>"

definition example_engine :: "bool \<Rightarrow> nat FEngine" where
  "example_engine check =
     \<lparr>getBackend = OPENGL, getShaderLanguage = [],
      check_crc32_after_loading = check, getShaderModel = DESKTOP\<rparr>"

definition example_specialization :: "(int, nat) Specialization" where
  "example_specialization =
     \<lparr>spec_definition = \<lparr>mImpl = Some 0, mKey = 161, mHash = 161\<rparr>,
      variant = \<lparr>variant_key = 3\<rparr>,
      specializationConstants =
        [\<lparr>constant_id = 8, constant_value = 1\<rparr>, \<lparr>constant_id = 9, constant_value = 0\<rparr>],
      pushConstants = [[], [\<lparr>constant_name = ''morphingBufferOffset'', constant_type = 0\<rparr>], []]\<rparr>"

section \<open>Properties of the cache\<close>

subsection \<open>The steps of a client\<close>

lemma accounted_None: "accounted s \<Longrightarrow> cache s key = None \<Longrightarrow> live s key = 0"
  unfolding accounted_def refCountOf_def
  by (metis option.simps(4) unat_0)

lemma accounted_Some:
  "accounted s \<Longrightarrow> cache s key = Some it \<Longrightarrow>
   unat (referenceCount it) = live s key \<and> 0 < live s key"
  unfolding accounted_def refCountOf_def
  by (metis option.simps(3,5) unat_gt_0 word_greater_zero_iff)

lemma accountedI:
  assumes "\<And>key. cache s key = None \<Longrightarrow> live s key = 0"
    and "\<And>key it. cache s key = Some it \<Longrightarrow> unat (referenceCount it) = live s key \<and> 0 < live s key"
  shows "accounted s"
  unfolding accounted_def refCountOf_def
proof (intro allI)
  fix key
  show "unat (case cache s key of None \<Rightarrow> 0 | Some x \<Rightarrow> referenceCount x) = live s key \<and>
        (cache s key \<noteq> None \<longleftrightarrow> 0 < (case cache s key of None \<Rightarrow> 0 | Some x \<Rightarrow> referenceCount x))"
  proof (cases "cache s key")
    case None
    with assms(1) show ?thesis by simp
  next
    case (Some it)
    with assms(2) [OF Some] show ?thesis by (auto simp: word_greater_zero_iff unat_gt_0)
  qed
qed

lemma Impl_get_hit:
  "mMap key = Some it \<Longrightarrow>
   Impl_get Hash this key factory mMap w =
     (Some (\<lparr>mImpl = Some this, mKey = key, mHash = Hash key\<rparr>, entry_value it),
      mMap(key \<mapsto> it\<lparr>referenceCount := referenceCount it + 1\<rparr>), w)"
  by (simp add: Impl_get_def)

lemma Impl_get_miss:
  "mMap key = None \<Longrightarrow>
   Impl_get Hash this key factory mMap w =
     (case factory w of
        (Some v, w') \<Rightarrow>
          (Some (\<lparr>mImpl = Some this, mKey = key, mHash = Hash key\<rparr>, v),
           mMap(key \<mapsto> \<lparr>referenceCount = 1, entry_value = v\<rparr>), w')
      | (None, w') \<Rightarrow> (None, mMap, w'))"
  by (simp add: Impl_get_def)

lemma unat_inc_u32: "unat (c :: u32) < 2 ^ 32 - 1 \<Longrightarrow> unat (c + 1) = Suc (unat c)"
  by (simp add: unat_word_ariths)

lemma unat_dec_u32: "0 < unat (c :: u32) \<Longrightarrow> unat (c - 1) = unat c - 1"
  using unat_minus_one [of c] unat_gt_0 [of c] by simp

lemma dec_zero_iff_u32: "0 < unat (c :: u32) \<Longrightarrow> (c - 1 = 0) = (unat c = 1)"
proof -
  have "(c - 1 = 0) = (c = 1)" by auto
  also have "\<dots> = (unat c = 1)" by (metis unat_1 word_unat_eq_iff)
  finally show ?thesis .
qed

lemma accounted_Get:
  assumes "accounted s" and "legal (Get key r) s"
  shows "\<exists>s'. step Hash this (Get key r) s = Inr s' \<and> accounted s'"
proof (cases "cache s key")
  case None
  note l0 = accounted_None [OF assms(1) None]
  show ?thesis
  proof (cases r)
    case N: None
    have "step Hash this (Get key r) s = Inr (s\<lparr>cache := cache s, calls := (calls s)(key := Suc (calls s key))\<rparr>)"
      using None N by (simp add: Impl_get_miss counting_def)
    moreover have "accounted (s\<lparr>cache := cache s, calls := (calls s)(key := Suc (calls s key))\<rparr>)"
      using assms(1) by (simp add: accounted_def)
    ultimately show ?thesis by blast
  next
    case (Some v)
    let ?s' = "s\<lparr>cache := (cache s)(key \<mapsto> \<lparr>referenceCount = 1, entry_value = v\<rparr>),
                 calls := (calls s)(key := Suc (calls s key)),
                 live := (live s)(key := Suc (live s key))\<rparr>"
    have "step Hash this (Get key r) s = Inr ?s'"
      using None Some by (simp add: Impl_get_miss counting_def)
    moreover have "accounted ?s'"
    proof (rule accountedI)
      fix k assume "cache ?s' k = None"
      then show "live ?s' k = 0"
        using accounted_None [OF assms(1), of k] by (simp split: if_splits)
    next
      fix k it assume "cache ?s' k = Some it"
      then show "unat (referenceCount it) = live ?s' k \<and> 0 < live ?s' k"
        using accounted_Some [OF assms(1), of k it] l0 by (auto split: if_splits)
    qed
    ultimately show ?thesis by blast
  qed
next
  case (Some it)
  note f = accounted_Some [OF assms(1) Some]
  let ?s' = "s\<lparr>cache := (cache s)(key \<mapsto> it\<lparr>referenceCount := referenceCount it + 1\<rparr>),
               calls := calls s,
               live := (live s)(key := Suc (live s key))\<rparr>"
  have "step Hash this (Get key r) s = Inr ?s'"
    using Some by (simp add: Impl_get_hit)
  moreover have "accounted ?s'"
  proof (rule accountedI)
    fix k assume "cache ?s' k = None"
    then show "live ?s' k = 0"
      using accounted_None [OF assms(1), of k] by (simp split: if_splits)
  next
    fix k e assume "cache ?s' k = Some e"
    then show "unat (referenceCount e) = live ?s' k \<and> 0 < live ?s' k"
      using accounted_Some [OF assms(1), of k e] f assms(2)
      by (auto simp: unat_inc_u32 split: if_splits)
  qed
  ultimately show ?thesis by blast
qed

lemma accounted_Copy:
  assumes "accounted s" and "legal (Copy key) s"
  shows "\<exists>s'. step Hash this (Copy key) s = Inr s' \<and> accounted s'"
proof (cases "cache s key")
  case None
  with accounted_None [OF assms(1) None] assms(2) show ?thesis by simp
next
  case (Some it)
  note f = accounted_Some [OF assms(1) Some]
  let ?s' = "s\<lparr>cache := (cache s)(key \<mapsto> it\<lparr>referenceCount := referenceCount it + 1\<rparr>),
               live := (live s)(key := Suc (live s key))\<rparr>"
  have "step Hash this (Copy key) s = Inr ?s'"
    using Some by (simp add: Impl_acquire_def Impl_at_def)
  moreover have "accounted ?s'"
  proof (rule accountedI)
    fix k assume "cache ?s' k = None"
    then show "live ?s' k = 0"
      using accounted_None [OF assms(1), of k] by (simp split: if_splits)
  next
    fix k e assume "cache ?s' k = Some e"
    then show "unat (referenceCount e) = live ?s' k \<and> 0 < live ?s' k"
      using accounted_Some [OF assms(1), of k e] f assms(2)
      by (auto simp: unat_inc_u32 split: if_splits)
  qed
  ultimately show ?thesis by blast
qed

lemma accounted_Drop:
  assumes "accounted s" and "legal (Drop key) s"
  shows "\<exists>s'. step Hash this (Drop key) s = Inr s' \<and> accounted s'"
proof (cases "cache s key")
  case None
  with accounted_None [OF assms(1) None] assms(2) show ?thesis by simp
next
  case (Some it)
  note f = accounted_Some [OF assms(1) Some]
  then have pos: "0 < unat (referenceCount it)" by simp
  show ?thesis
  proof (cases "referenceCount it - 1 = 0")
    case True
    then have l1: "live s key = 1" using dec_zero_iff_u32 [OF pos] f by simp
    let ?s' = "s\<lparr>cache := (cache s)(key := None), live := (live s)(key := live s key - 1)\<rparr>"
    have "step Hash this (Drop key) s = Inr ?s'"
      using Some True by (simp add: Impl_release_def Impl_at_def)
    moreover have "accounted ?s'"
    proof (rule accountedI)
      fix k assume "cache ?s' k = None"
      then show "live ?s' k = 0"
        using accounted_None [OF assms(1), of k] l1 by (simp split: if_splits)
    next
      fix k e assume "cache ?s' k = Some e"
      then show "unat (referenceCount e) = live ?s' k \<and> 0 < live ?s' k"
        using accounted_Some [OF assms(1), of k e] by (auto split: if_splits)
    qed
    ultimately show ?thesis by blast
  next
    case False
    then have l1: "live s key \<noteq> 1" using dec_zero_iff_u32 [OF pos] f by simp
    let ?s' = "s\<lparr>cache := (cache s)(key \<mapsto> it\<lparr>referenceCount := referenceCount it - 1\<rparr>),
                 live := (live s)(key := live s key - 1)\<rparr>"
    have "step Hash this (Drop key) s = Inr ?s'"
      using Some False by (simp add: Impl_release_def Impl_at_def)
    moreover have "accounted ?s'"
    proof (rule accountedI)
      fix k assume "cache ?s' k = None"
      then show "live ?s' k = 0"
        using accounted_None [OF assms(1), of k] by (simp split: if_splits)
    next
      fix k e assume "cache ?s' k = Some e"
      then show "unat (referenceCount e) = live ?s' k \<and> 0 < live ?s' k"
        using accounted_Some [OF assms(1), of k e] f l1 unat_dec_u32 [OF pos]
        by (auto split: if_splits)
    qed
    ultimately show ?thesis by blast
  qed
qed

lemma accounted_step:
  assumes "accounted s" and "legal a s"
  shows "\<exists>s'. step Hash this a s = Inr s' \<and> accounted s'"
proof (cases a)
  case (Get key r)
  with assms show ?thesis using accounted_Get [of s key r Hash this] by simp
next
  case (Copy key)
  with assms show ?thesis using accounted_Copy [of s key Hash this] by simp
next
  case (Drop key)
  with assms show ?thesis using accounted_Drop [of s key Hash this] by simp
qed

lemma accounted_run:
  "accounted s \<Longrightarrow> legal_run Hash this ops s
   \<Longrightarrow> \<exists>s'. run Hash this ops s = Inr s' \<and> accounted s'"
proof (induction ops arbitrary: s)
  case Nil
  then show ?case by simp
next
  case (Cons a ops)
  from Cons.prems obtain s1 where s1: "step Hash this a s = Inr s1" "accounted s1"
    using accounted_step [of s a Hash this] by auto
  with Cons.prems have "legal_run Hash this ops s1" by simp
  from Cons.IH [OF s1(2) this] s1(1) show ?case by simp
qed

lemma accounted_init: "accounted init_client"
  by (simp add: accounted_def init_client_def refCountOf_def)

lemma Impl_release_present:
  "mMap key = Some it \<Longrightarrow>
   Impl_release mMap key hash =
     Inr (if referenceCount it = 1 then mMap(key := None)
          else mMap(key \<mapsto> it\<lparr>referenceCount := referenceCount it - 1\<rparr>))"
  by (simp add: Impl_release_def Impl_at_def)

lemma step_calls_present:
  assumes "cache s key \<noteq> None" and "step Hash this a s = Inr s'"
  shows "calls s' key = calls s key"
proof (cases a)
  case (Get k r)
  show ?thesis
  proof (cases "cache s k")
    case None
    with assms(1) have "k \<noteq> key" by auto
    with assms(2) Get None show ?thesis
      by (cases r) (auto simp: Impl_get_miss counting_def)
  next
    case (Some it)
    with assms(2) Get show ?thesis by (auto simp: Impl_get_hit)
  qed
next
  case (Copy k)
  with assms(2) show ?thesis by (auto split: sum.splits)
next
  case (Drop k)
  with assms(2) show ?thesis by (auto split: sum.splits)
qed

lemma run_calls_present:
  "stays_present Hash this key ops s \<Longrightarrow> run Hash this ops s = Inr s'
   \<Longrightarrow> calls s' key = calls s key"
proof (induction ops arbitrary: s)
  case Nil
  then show ?case by simp
next
  case (Cons a ops)
  from Cons.prems(2) obtain s1 where s1: "step Hash this a s = Inr s1" "run Hash this ops s1 = Inr s'"
    by (auto split: sum.splits)
  from Cons.prems(1) s1(1) have p: "cache s key \<noteq> None" "stays_present Hash this key ops s1"
    by auto
  from Cons.IH [OF p(2) s1(2)] step_calls_present [OF p(1) s1(1)] show ?case by simp
qed

lemma step_Get_insert:
  assumes "cache s key = None" and "step Hash this (Get key (Some v)) s = Inr s1"
  shows "calls s1 key = Suc (calls s key) \<and> cache s1 key = Some \<lparr>referenceCount = 1, entry_value = v\<rparr>"
  using assms by (auto simp: Impl_get_miss counting_def)

subsection \<open>Lookup of a key that is present\<close>

text \<open>
  C1. At most one live instance per key. For a key that has an entry, \<open>get\<close> does not
  run the factory (the world of the factory is returned as it was, whatever the factory
  is), adds one to the \<open>uint32_t referenceCount\<close> of the entry (one more as a number
  unless the count was \<open>2 ^ 32 - 1\<close>) and returns a handle of the key with the value
  stored in the entry, which stays in place. So for a client that inserts a key with
  \<open>get\<close> and goes on with any operations before each of which the key has its entry,
  up to and including the one that evicts it, the factory of that key has run once, at
  the insertion, and not again.
\<close>

theorem present_key_shares_instance:
  fixes mMap :: "('k, 'v) Map" and factory :: "'w \<Rightarrow> 'v option \<times> 'w"
    and s :: "('k, 'v) client"
  shows
  "(mMap key = Some it \<longrightarrow>
      Impl_get Hash this key factory mMap w =
        (Some (\<lparr>mImpl = Some this, mKey = key, mHash = Hash key\<rparr>, entry_value it),
         mMap(key \<mapsto> it\<lparr>referenceCount := referenceCount it + 1\<rparr>), w) \<and>
      (unat (referenceCount it) < 2 ^ 32 - 1 \<longrightarrow>
         unat (referenceCount it + 1) = unat (referenceCount it) + 1)) \<and>
   (cache s key = None \<longrightarrow> step Hash this (Get key (Some v)) s = Inr s1 \<longrightarrow>
    stays_present Hash this key ops s1 \<longrightarrow> run Hash this ops s1 = Inr s2 \<longrightarrow>
      calls s1 key = calls s key + 1 \<and> calls s2 key = calls s key + 1)"
proof (intro conjI impI)
  assume "mMap key = Some it"
  then show "Impl_get Hash this key factory mMap w =
          (Some (\<lparr>mImpl = Some this, mKey = key, mHash = Hash key\<rparr>, entry_value it),
           mMap(key \<mapsto> it\<lparr>referenceCount := referenceCount it + 1\<rparr>), w)"
    by (simp add: Impl_get_hit)
next
  assume "unat (referenceCount it) < 2 ^ 32 - 1"
  then show "unat (referenceCount it + 1) = unat (referenceCount it) + 1"
    by (simp add: unat_inc_u32)
next
  assume a: "cache s key = None" "step Hash this (Get key (Some v)) s = Inr s1"
    "stays_present Hash this key ops s1" "run Hash this ops s1 = Inr s2"
  show "calls s1 key = calls s key + 1"
    using step_Get_insert [OF a(1,2)] by simp
  show "calls s2 key = calls s key + 1"
    using step_Get_insert [OF a(1,2)] run_calls_present [OF a(3,4)] by simp
qed

theorem present_key_shares_instance_witness:
  "[(161 :: u64) \<mapsto> \<lparr>referenceCount = 1, entry_value = (7 :: nat)\<rparr>] 161
     = Some \<lparr>referenceCount = 1, entry_value = 7\<rparr> \<and>
   Impl_get (\<lambda>k. k) 0 (161 :: u64) (\<lambda>w :: nat. (Some (8 :: nat), Suc w))
       [161 \<mapsto> \<lparr>referenceCount = 1, entry_value = 7\<rparr>] 0 =
     (Some (\<lparr>mImpl = Some 0, mKey = 161, mHash = 161\<rparr>, 7),
      [161 \<mapsto> \<lparr>referenceCount = 2, entry_value = 7\<rparr>], 0) \<and>
   unat (referenceCount \<lparr>referenceCount = 1, entry_value = (7 :: nat)\<rparr> + 1) = 2 \<and>
   cache (init_client :: (u64, nat) client) 161 = None \<and>
   step (\<lambda>k. k) 0 (Get 161 (Some 7)) (init_client :: (u64, nat) client) =
     Inr \<lparr>cache = [161 \<mapsto> \<lparr>referenceCount = 1, entry_value = 7\<rparr>],
          live = (\<lambda>_. 0)(161 := 1), calls = (\<lambda>_. 0)(161 := 1)\<rparr> \<and>
   stays_present (\<lambda>k. k) 0 161 [Get 161 (Some 8), Copy 161, Drop 161, Drop 161, Drop 161]
     \<lparr>cache = [(161 :: u64) \<mapsto> \<lparr>referenceCount = 1, entry_value = (7 :: nat)\<rparr>],
      live = (\<lambda>_. 0)(161 := 1), calls = (\<lambda>_. 0)(161 := 1)\<rparr> \<and>
   run (\<lambda>k. k) 0 [Get 161 (Some 8), Copy 161, Drop 161, Drop 161, Drop 161]
     \<lparr>cache = [(161 :: u64) \<mapsto> \<lparr>referenceCount = 1, entry_value = (7 :: nat)\<rparr>],
      live = (\<lambda>_. 0)(161 := 1), calls = (\<lambda>_. 0)(161 := 1)\<rparr>
    = Inr \<lparr>cache = Map.empty, live = (\<lambda>_. 0)(161 := 0), calls = (\<lambda>_. 0)(161 := 1)\<rparr> \<and>
   calls \<lparr>cache = (Map.empty :: (u64, nat) Map), live = (\<lambda>_. 0)(161 := 0),
          calls = (\<lambda>_. 0)(161 := 1)\<rparr> 161 = 1"
proof -
  let ?s1 = "\<lparr>cache = [(161 :: u64) \<mapsto> \<lparr>referenceCount = 1, entry_value = (7 :: nat)\<rparr>],
      live = (\<lambda>_. 0)(161 := 1), calls = (\<lambda>_. 0)(161 := 1)\<rparr>"
  let ?ops = "[Get (161 :: u64) (Some (8 :: nat)), Copy 161, Drop 161, Drop 161, Drop 161]"
  have a: "cache (init_client :: (u64, nat) client) 161 = None"
    by (simp add: init_client_def)
  have b: "step (\<lambda>k. k) 0 (Get 161 (Some 7)) (init_client :: (u64, nat) client) = Inr ?s1"
    by (simp add: init_client_def Impl_get_def counting_def)
  have c: "stays_present (\<lambda>k. k) 0 161 ?ops ?s1"
    by (simp add: Impl_get_def counting_def Impl_acquire_def Impl_release_def Impl_at_def)
  have d: "run (\<lambda>k. k) 0 ?ops ?s1
    = Inr \<lparr>cache = Map.empty, live = (\<lambda>_. 0)(161 := 0), calls = (\<lambda>_. 0)(161 := 1)\<rparr>"
    by (simp add: Impl_get_def counting_def Impl_acquire_def Impl_release_def Impl_at_def
        numeral_2_eq_2)
  have e: "[(161 :: u64) \<mapsto> \<lparr>referenceCount = 1, entry_value = (7 :: nat)\<rparr>] 161
     = Some \<lparr>referenceCount = 1, entry_value = 7\<rparr>" by simp
  from present_key_shares_instance
    [where mMap = "[(161 :: u64) \<mapsto> \<lparr>referenceCount = 1, entry_value = (7 :: nat)\<rparr>]"
       and key = 161 and it = "\<lparr>referenceCount = 1, entry_value = 7\<rparr>"
       and factory = "\<lambda>w :: nat. (Some (8 :: nat), Suc w)" and w = 0
       and Hash = "\<lambda>k. k" and this = 0
       and s = init_client and v = 7 and ?s1.0 = ?s1 and ops = ?ops
       and ?s2.0 = "\<lparr>cache = Map.empty, live = (\<lambda>_. 0)(161 := 0),
           calls = (\<lambda>_. 0)(161 := 1)\<rparr>"]
    a b c d
  show ?thesis by simp
qed

subsection \<open>Reference counts and eviction\<close>

lemma run_append:
  "run Hash this (xs @ ys) s =
     (case run Hash this xs s of Inl p \<Rightarrow> Inl p | Inr s' \<Rightarrow> run Hash this ys s')"
  by (induction xs arbitrary: s) (auto split: sum.splits)

lemma legal_run_append:
  "legal_run Hash this (xs @ ys) s \<longleftrightarrow>
     legal_run Hash this xs s \<and>
     (case run Hash this xs s of Inl p \<Rightarrow> True | Inr s' \<Rightarrow> legal_run Hash this ys s')"
  by (induction xs arbitrary: s) (auto split: sum.splits)

lemma step_acquire_present:
  assumes "cache s k = Some e" and "a = Copy k \<or> (\<exists>r. a = Get k r)"
  shows "step Hash this a s =
     Inr (s\<lparr>cache := (cache s)(k \<mapsto> e\<lparr>referenceCount := referenceCount e + 1\<rparr>),
            live := (live s)(k := Suc (live s k))\<rparr>)"
  using assms by (auto simp: Impl_acquire_def Impl_at_def Impl_get_hit)

lemma step_Drop_effect:
  assumes "step Hash this (Drop k) s = Inr s'"
  shows "live s' = (live s)(k := live s k - 1) \<and> calls s' = calls s \<and>
         (\<forall>e. cache s k = Some e \<longrightarrow> referenceCount e \<noteq> 1 \<longrightarrow>
            cache s' k = Some (e\<lparr>referenceCount := referenceCount e - 1\<rparr>))"
  using assms
  by (auto simp: Impl_release_def Impl_at_def Let_def split: option.splits sum.splits if_splits)

lemma run_acquisitions:
  assumes "accounted s" and "0 < live s k" and "live s k + length as < 2 ^ 32"
    and "\<forall>a\<in>set as. a = Copy k \<or> (\<exists>r. a = Get k r)"
  shows "\<exists>s'. run Hash this as s = Inr s' \<and> legal_run Hash this as s \<and> accounted s' \<and>
           live s' k = live s k + length as \<and> calls s' k = calls s k \<and>
           map_option entry_value (cache s' k) = map_option entry_value (cache s k)"
  using assms
proof (induction as arbitrary: s)
  case Nil
  then show ?case by simp
next
  case (Cons a as)
  from Cons.prems(1,2) obtain e where e: "cache s k = Some e"
    using accounted_None [of s k] by (cases "cache s k") auto
  from Cons.prems(4) have a: "a = Copy k \<or> (\<exists>r. a = Get k r)" by simp
  let ?s1 = "s\<lparr>cache := (cache s)(k \<mapsto> e\<lparr>referenceCount := referenceCount e + 1\<rparr>),
               live := (live s)(k := Suc (live s k))\<rparr>"
  have st: "step Hash this a s = Inr ?s1" by (rule step_acquire_present [OF e a])
  have lg: "legal a s" using a Cons.prems(2,3) by auto
  from accounted_step [OF Cons.prems(1) lg, of Hash this] st have acc: "accounted ?s1" by simp
  have "\<exists>s'. run Hash this as ?s1 = Inr s' \<and> legal_run Hash this as ?s1 \<and> accounted s' \<and>
           live s' k = live ?s1 k + length as \<and> calls s' k = calls ?s1 k \<and>
           map_option entry_value (cache s' k) = map_option entry_value (cache ?s1 k)"
    using Cons.prems(3,4) by (intro Cons.IH [OF acc]) simp_all
  then obtain s' where s': "run Hash this as ?s1 = Inr s'" "legal_run Hash this as ?s1"
    "accounted s'" "live s' k = live ?s1 k + length as" "calls s' k = calls ?s1 k"
    "map_option entry_value (cache s' k) = map_option entry_value (cache ?s1 k)"
    by blast
  from s' st lg e show ?case by simp
qed

lemma run_releases:
  assumes "accounted s" and "n \<le> live s k"
  shows "\<exists>s'. run Hash this (replicate n (Drop k)) s = Inr s' \<and>
           legal_run Hash this (replicate n (Drop k)) s \<and> accounted s' \<and>
           live s' k = live s k - n \<and> calls s' = calls s \<and>
           (n < live s k \<longrightarrow>
              map_option entry_value (cache s' k) = map_option entry_value (cache s k))"
  using assms
proof (induction n arbitrary: s)
  case 0
  then show ?case by simp
next
  case (Suc n)
  have lg: "legal (Drop k) s" using Suc.prems(2) by simp
  from accounted_step [OF Suc.prems(1) lg, of Hash this]
  obtain s1 where s1: "step Hash this (Drop k) s = Inr s1" "accounted s1" by blast
  note eff = step_Drop_effect [OF s1(1)]
  from eff Suc.prems(2) have n: "n \<le> live s1 k" by simp
  from Suc.IH [OF s1(2) n]
  obtain s' where s': "run Hash this (replicate n (Drop k)) s1 = Inr s'"
    "legal_run Hash this (replicate n (Drop k)) s1" "accounted s'"
    "live s' k = live s1 k - n" "calls s' = calls s1"
    "n < live s1 k \<longrightarrow>
       map_option entry_value (cache s' k) = map_option entry_value (cache s1 k)"
    by blast
  have val: "map_option entry_value (cache s' k) = map_option entry_value (cache s k)"
    if big: "Suc n < live s k"
  proof -
    from big Suc.prems(1) obtain e where e: "cache s k = Some e"
      using accounted_None [of s k] by (cases "cache s k") auto
    from accounted_Some [OF Suc.prems(1) e] big have "unat (referenceCount e) \<noteq> 1" by simp
    then have "referenceCount e \<noteq> 1" by auto
    with eff e have "cache s1 k = Some (e\<lparr>referenceCount := referenceCount e - 1\<rparr>)" by simp
    moreover from big eff have "n < live s1 k" by simp
    ultimately show ?thesis using s'(6) e by simp
  qed
  from s' s1 lg eff val show ?case by simp
qed

lemma step_Get_init:
  "step Hash this (Get k (Some v)) init_client =
     Inr \<lparr>cache = [k \<mapsto> \<lparr>referenceCount = 1, entry_value = v\<rparr>],
          live = (\<lambda>_. 0)(k := Suc 0), calls = (\<lambda>_. 0)(k := Suc 0)\<rparr>"
  by (simp add: init_client_def Impl_get_def counting_def)

lemma accounted_value:
  assumes "accounted s" and "live s k = 1" and "map_option entry_value (cache s k) = Some v"
  shows "cache s k = Some \<lparr>referenceCount = 1, entry_value = v\<rparr>"
proof -
  from assms(3) obtain e where e: "cache s k = Some e" "entry_value e = v" by auto
  from accounted_Some [OF assms(1) e(1)] assms(2) have "unat (referenceCount e) = 1" by simp
  then have "referenceCount e = 1" by (metis unat_1 word_unat_eq_iff)
  with e show ?thesis by (cases e) simp
qed

lemma acquire_N_release_N:
  fixes v :: 'v and k :: 'k
  assumes "\<forall>a\<in>set as. a = Copy k \<or> (\<exists>r. a = Get k r)" and "Suc (length as) < 2 ^ 32"
  shows "\<exists>s. run Hash this (Get k (Some v) # as @ replicate (length as) (Drop k)) init_client = Inr s \<and>
           legal_run Hash this (Get k (Some v) # as @ replicate (length as) (Drop k)) init_client \<and>
           cache s k = Some \<lparr>referenceCount = 1, entry_value = v\<rparr> \<and> calls s k = 1 \<and>
           (\<exists>s'. run Hash this (Get k (Some v) # as @ replicate (Suc (length as)) (Drop k)) init_client
                   = Inr s' \<and> cache s' k = None \<and> calls s' k = 1)"
proof -
  let ?s0 = "\<lparr>cache = [k \<mapsto> \<lparr>referenceCount = 1, entry_value = v\<rparr>],
          live = (\<lambda>_. 0)(k := Suc 0), calls = (\<lambda>_. 0)(k := Suc 0)\<rparr> :: ('k, 'v) client"
  have l0: "legal (Get k (Some v)) (init_client :: ('k, 'v) client)"
    by (simp add: init_client_def)
  have "\<exists>s'. step Hash this (Get k (Some v)) (init_client :: ('k, 'v) client) = Inr s' \<and>
          accounted s'"
    by (rule accounted_step [OF accounted_init l0])
  then have acc0: "accounted ?s0" unfolding step_Get_init by simp
  have "\<exists>s'. run Hash this as ?s0 = Inr s' \<and> legal_run Hash this as ?s0 \<and> accounted s' \<and>
           live s' k = live ?s0 k + length as \<and> calls s' k = calls ?s0 k \<and>
           map_option entry_value (cache s' k) = map_option entry_value (cache ?s0 k)"
    using assms by (intro run_acquisitions [OF acc0]) simp_all
  then obtain s1 where s1: "run Hash this as ?s0 = Inr s1" "legal_run Hash this as ?s0"
    "accounted s1" "live s1 k = Suc (length as)" "calls s1 k = 1"
    "map_option entry_value (cache s1 k) = Some v"
    by auto
  from run_releases [OF s1(3), of "length as" k Hash this] s1(4)
  obtain s2 where s2: "run Hash this (replicate (length as) (Drop k)) s1 = Inr s2"
    "legal_run Hash this (replicate (length as) (Drop k)) s1" "accounted s2"
    "live s2 k = 1" "calls s2 = calls s1"
    "map_option entry_value (cache s2 k) = map_option entry_value (cache s1 k)"
    by auto
  from accounted_value [OF s2(3,4)] s2(6) s1(6)
  have c2: "cache s2 k = Some \<lparr>referenceCount = 1, entry_value = v\<rparr>" by simp
  from run_releases [OF s1(3), of "Suc (length as)" k Hash this] s1(4)
  obtain s3 where s3: "run Hash this (replicate (Suc (length as)) (Drop k)) s1 = Inr s3"
    "accounted s3" "live s3 k = 0" "calls s3 = calls s1"
    by auto
  have c3: "cache s3 k = None"
  proof (cases "cache s3 k")
    case (Some e)
    with accounted_Some [OF s3(2) Some] s3(3) show ?thesis by simp
  qed simp
  have r2: "run Hash this (Get k (Some v) # as @ replicate (length as) (Drop k)) init_client = Inr s2"
    using s1(1) s2(1) by (simp add: step_Get_init run_append del: step.simps)
  have lr: "legal_run Hash this (Get k (Some v) # as @ replicate (length as) (Drop k)) init_client"
    using l0 s1(1,2) s2(2) by (simp add: step_Get_init legal_run_append del: step.simps)
  have r3: "run Hash this (Get k (Some v) # as @ replicate (Suc (length as)) (Drop k)) init_client
              = Inr s3"
    using s1(1) s3(1) by (simp add: step_Get_init run_append del: step.simps replicate.simps)
  from r2 lr c2 r3 c3 s2(5) s3(4) s1(5) show ?thesis by auto
qed

lemma client_run_invariant:
  assumes "legal_run Hash this ops (init_client :: ('k, 'v) client)"
  shows "\<exists>s. run Hash this ops (init_client :: ('k, 'v) client) = Inr s \<and>
     (\<forall>key. (cache s key \<noteq> None \<longleftrightarrow> 0 < refCountOf (cache s) key) \<and>
            unat (refCountOf (cache s) key) = live s key) \<and>
     (\<forall>key (factory :: 'w \<Rightarrow> 'v option \<times> 'w) w v w'.
        cache s key = None \<longrightarrow> factory w = (Some v, w') \<longrightarrow>
          Impl_get Hash this key factory (cache s) w =
            (Some (\<lparr>mImpl = Some this, mKey = key, mHash = Hash key\<rparr>, v),
             (cache s)(key \<mapsto> \<lparr>referenceCount = 1, entry_value = v\<rparr>), w')) \<and>
     (\<forall>key it. cache s key = Some it \<longrightarrow>
        Impl_release (cache s) key (Hash key) =
          Inr (if referenceCount it = 1 then (cache s)(key := None)
               else (cache s)(key \<mapsto> it\<lparr>referenceCount := referenceCount it - 1\<rparr>))) \<and>
     (\<forall>key (factory :: 'w \<Rightarrow> 'v option \<times> 'w) w.
        0 < live s key \<longrightarrow>
          (\<exists>it. cache s key = Some it \<and>
             Impl_get Hash this key factory (cache s) w =
               (Some (\<lparr>mImpl = Some this, mKey = key, mHash = Hash key\<rparr>, entry_value it),
                (cache s)(key \<mapsto> it\<lparr>referenceCount := referenceCount it + 1\<rparr>), w))) \<and>
     (\<forall>key (factory :: 'w \<Rightarrow> 'v option \<times> 'w) w.
        live s key = 0 \<longrightarrow>
          cache s key = None \<and>
          snd (snd (Impl_get Hash this key factory (cache s) w)) = snd (factory w) \<and>
          map_option snd (fst (Impl_get Hash this key factory (cache s) w)) = fst (factory w))"
proof -
  from accounted_run [OF accounted_init assms]
  obtain s where s: "run Hash this ops (init_client :: ('k, 'v) client) = Inr s" "accounted s"
    by blast
  have inv: "\<forall>key. (cache s key \<noteq> None \<longleftrightarrow> 0 < refCountOf (cache s) key) \<and>
            unat (refCountOf (cache s) key) = live s key"
    using s(2) by (simp add: accounted_def)
  have ins: "\<forall>key (factory :: 'w \<Rightarrow> 'v option \<times> 'w) w v w'.
        cache s key = None \<longrightarrow> factory w = (Some v, w') \<longrightarrow>
          Impl_get Hash this key factory (cache s) w =
            (Some (\<lparr>mImpl = Some this, mKey = key, mHash = Hash key\<rparr>, v),
             (cache s)(key \<mapsto> \<lparr>referenceCount = 1, entry_value = v\<rparr>), w')"
    by (simp add: Impl_get_miss)
  have rel: "\<forall>key it. cache s key = Some it \<longrightarrow>
        Impl_release (cache s) key (Hash key) =
          Inr (if referenceCount it = 1 then (cache s)(key := None)
               else (cache s)(key \<mapsto> it\<lparr>referenceCount := referenceCount it - 1\<rparr>))"
    by (simp add: Impl_release_present)
  have hit: "\<forall>key (factory :: 'w \<Rightarrow> 'v option \<times> 'w) w.
        0 < live s key \<longrightarrow>
          (\<exists>it. cache s key = Some it \<and>
             Impl_get Hash this key factory (cache s) w =
               (Some (\<lparr>mImpl = Some this, mKey = key, mHash = Hash key\<rparr>, entry_value it),
                (cache s)(key \<mapsto> it\<lparr>referenceCount := referenceCount it + 1\<rparr>), w))"
  proof (intro allI impI)
    fix key and factory :: "'w \<Rightarrow> 'v option \<times> 'w" and w
    assume "0 < live s key"
    with accounted_None [OF s(2), of key] obtain it where it: "cache s key = Some it"
      by (cases "cache s key") auto
    then show "\<exists>it. cache s key = Some it \<and>
             Impl_get Hash this key factory (cache s) w =
               (Some (\<lparr>mImpl = Some this, mKey = key, mHash = Hash key\<rparr>, entry_value it),
                (cache s)(key \<mapsto> it\<lparr>referenceCount := referenceCount it + 1\<rparr>), w)"
      by (simp add: Impl_get_hit)
  qed
  have miss: "\<forall>key (factory :: 'w \<Rightarrow> 'v option \<times> 'w) w.
        live s key = 0 \<longrightarrow>
          cache s key = None \<and>
          snd (snd (Impl_get Hash this key factory (cache s) w)) = snd (factory w) \<and>
          map_option snd (fst (Impl_get Hash this key factory (cache s) w)) = fst (factory w)"
  proof (intro allI impI)
    fix key and factory :: "'w \<Rightarrow> 'v option \<times> 'w" and w
    assume l: "live s key = 0"
    have n: "cache s key = None"
    proof (cases "cache s key")
      case (Some it)
      with accounted_Some [OF s(2) Some] l show ?thesis by simp
    qed simp
    show "cache s key = None \<and>
          snd (snd (Impl_get Hash this key factory (cache s) w)) = snd (factory w) \<and>
          map_option snd (fst (Impl_get Hash this key factory (cache s) w)) = fst (factory w)"
      using n by (cases "factory w") (auto simp: Impl_get_miss split: option.splits)
  qed
  from s(1) inv ins rel hit miss show ?thesis by blast
qed

text \<open>
  C2. An entry exists if and only if its reference count is positive, with synchronous
  eviction. After any run of a client from the empty cache that copies and destroys only
  handles it holds, and never holds more than \<open>2 ^ 32 - 1\<close> handles of one key: no
  call has panicked; a key has an entry exactly when its reference count is positive, and
  the count is the number of handles held; \<open>get\<close> inserts a new entry with count 1;
  \<open>release\<close> takes one off the count and erases the entry at once when that gives
  0; while a handle of a key is held (N acquired, fewer than N released) the entry is
  there and \<open>get\<close> succeeds without running the factory; when none is held (the Nth
  released) the entry is gone and \<open>get\<close> runs the factory again. In particular, after
  a \<open>get\<close> that inserts key \<open>k\<close>, N - 1 more acquisitions of \<open>k\<close> (by \<open>get\<close> or by
  copying a handle) and N - 1 destructions, for N below \<open>2 ^ 32\<close>, the entry has
  count 1 and \<open>get\<close> returns its value without running the factory; after the Nth
  destruction the entry is gone and \<open>get\<close> runs the factory.
\<close>

theorem refcount_tracks_handles:
  fixes factory :: "'w \<Rightarrow> 'v option \<times> 'w" and k :: 'k and v :: 'v
  shows
  "(legal_run Hash this ops (init_client :: ('k, 'v) client) \<longrightarrow>
     (\<exists>s. run Hash this ops (init_client :: ('k, 'v) client) = Inr s \<and>
        (\<forall>key. (cache s key \<noteq> None \<longleftrightarrow> 0 < refCountOf (cache s) key) \<and>
               unat (refCountOf (cache s) key) = live s key) \<and>
        (\<forall>key (factory :: 'w \<Rightarrow> 'v option \<times> 'w) w v w'.
           cache s key = None \<longrightarrow> factory w = (Some v, w') \<longrightarrow>
             Impl_get Hash this key factory (cache s) w =
               (Some (\<lparr>mImpl = Some this, mKey = key, mHash = Hash key\<rparr>, v),
                (cache s)(key \<mapsto> \<lparr>referenceCount = 1, entry_value = v\<rparr>), w')) \<and>
        (\<forall>key it. cache s key = Some it \<longrightarrow>
           Impl_release (cache s) key (Hash key) =
             Inr (if referenceCount it = 1 then (cache s)(key := None)
                  else (cache s)(key \<mapsto> it\<lparr>referenceCount := referenceCount it - 1\<rparr>))) \<and>
        (\<forall>key (factory :: 'w \<Rightarrow> 'v option \<times> 'w) w.
           0 < live s key \<longrightarrow>
             (\<exists>it. cache s key = Some it \<and>
                Impl_get Hash this key factory (cache s) w =
                  (Some (\<lparr>mImpl = Some this, mKey = key, mHash = Hash key\<rparr>, entry_value it),
                   (cache s)(key \<mapsto> it\<lparr>referenceCount := referenceCount it + 1\<rparr>), w))) \<and>
        (\<forall>key (factory :: 'w \<Rightarrow> 'v option \<times> 'w) w.
           live s key = 0 \<longrightarrow>
             cache s key = None \<and>
             snd (snd (Impl_get Hash this key factory (cache s) w)) = snd (factory w) \<and>
             map_option snd (fst (Impl_get Hash this key factory (cache s) w)) = fst (factory w)))) \<and>
   ((\<forall>a\<in>set as. a = Copy k \<or> (\<exists>r. a = Get k r)) \<longrightarrow> Suc (length as) < 2 ^ 32 \<longrightarrow>
     (\<exists>s. run Hash this (Get k (Some v) # as @ replicate (length as) (Drop k)) init_client = Inr s \<and>
        cache s k = Some \<lparr>referenceCount = 1, entry_value = v\<rparr> \<and>
        Impl_get Hash this k factory (cache s) w =
          (Some (\<lparr>mImpl = Some this, mKey = k, mHash = Hash k\<rparr>, v),
           (cache s)(k \<mapsto> \<lparr>referenceCount = 2, entry_value = v\<rparr>), w) \<and>
        (\<exists>s'. run Hash this (Get k (Some v) # as @ replicate (Suc (length as)) (Drop k)) init_client
                = Inr s' \<and>
              cache s' k = None \<and>
              snd (snd (Impl_get Hash this k factory (cache s') w)) = snd (factory w) \<and>
              map_option snd (fst (Impl_get Hash this k factory (cache s') w)) = fst (factory w))))"
proof (intro conjI impI)
  assume "legal_run Hash this ops (init_client :: ('k, 'v) client)"
  then show "\<exists>s. run Hash this ops (init_client :: ('k, 'v) client) = Inr s \<and>
        (\<forall>key. (cache s key \<noteq> None \<longleftrightarrow> 0 < refCountOf (cache s) key) \<and>
               unat (refCountOf (cache s) key) = live s key) \<and>
        (\<forall>key (factory :: 'w \<Rightarrow> 'v option \<times> 'w) w v w'.
           cache s key = None \<longrightarrow> factory w = (Some v, w') \<longrightarrow>
             Impl_get Hash this key factory (cache s) w =
               (Some (\<lparr>mImpl = Some this, mKey = key, mHash = Hash key\<rparr>, v),
                (cache s)(key \<mapsto> \<lparr>referenceCount = 1, entry_value = v\<rparr>), w')) \<and>
        (\<forall>key it. cache s key = Some it \<longrightarrow>
           Impl_release (cache s) key (Hash key) =
             Inr (if referenceCount it = 1 then (cache s)(key := None)
                  else (cache s)(key \<mapsto> it\<lparr>referenceCount := referenceCount it - 1\<rparr>))) \<and>
        (\<forall>key (factory :: 'w \<Rightarrow> 'v option \<times> 'w) w.
           0 < live s key \<longrightarrow>
             (\<exists>it. cache s key = Some it \<and>
                Impl_get Hash this key factory (cache s) w =
                  (Some (\<lparr>mImpl = Some this, mKey = key, mHash = Hash key\<rparr>, entry_value it),
                   (cache s)(key \<mapsto> it\<lparr>referenceCount := referenceCount it + 1\<rparr>), w))) \<and>
        (\<forall>key (factory :: 'w \<Rightarrow> 'v option \<times> 'w) w.
           live s key = 0 \<longrightarrow>
             cache s key = None \<and>
             snd (snd (Impl_get Hash this key factory (cache s) w)) = snd (factory w) \<and>
             map_option snd (fst (Impl_get Hash this key factory (cache s) w)) = fst (factory w))"
    by (rule client_run_invariant)
next
  assume a: "\<forall>a\<in>set as. a = Copy k \<or> (\<exists>r. a = Get k r)" "Suc (length as) < 2 ^ 32"
  from acquire_N_release_N [OF a, of Hash this v]
  obtain s s' where
    s: "run Hash this (Get k (Some v) # as @ replicate (length as) (Drop k)) init_client = Inr s"
       "cache s k = Some \<lparr>referenceCount = 1, entry_value = v\<rparr>"
    and s': "run Hash this (Get k (Some v) # as @ replicate (Suc (length as)) (Drop k)) init_client
               = Inr s'"
       "cache s' k = None"
    by blast
  have hit: "Impl_get Hash this k factory (cache s) w =
          (Some (\<lparr>mImpl = Some this, mKey = k, mHash = Hash k\<rparr>, v),
           (cache s)(k \<mapsto> \<lparr>referenceCount = 2, entry_value = v\<rparr>), w)"
    using s(2) by (simp add: Impl_get_hit)
  have miss: "snd (snd (Impl_get Hash this k factory (cache s') w)) = snd (factory w) \<and>
      map_option snd (fst (Impl_get Hash this k factory (cache s') w)) = fst (factory w)"
    using s'(2) by (cases "factory w") (auto simp: Impl_get_miss split: option.splits)
  from s s' hit miss
  show "\<exists>s. run Hash this (Get k (Some v) # as @ replicate (length as) (Drop k)) init_client = Inr s \<and>
        cache s k = Some \<lparr>referenceCount = 1, entry_value = v\<rparr> \<and>
        Impl_get Hash this k factory (cache s) w =
          (Some (\<lparr>mImpl = Some this, mKey = k, mHash = Hash k\<rparr>, v),
           (cache s)(k \<mapsto> \<lparr>referenceCount = 2, entry_value = v\<rparr>), w) \<and>
        (\<exists>s'. run Hash this (Get k (Some v) # as @ replicate (Suc (length as)) (Drop k)) init_client
                = Inr s' \<and>
              cache s' k = None \<and>
              snd (snd (Impl_get Hash this k factory (cache s') w)) = snd (factory w) \<and>
              map_option snd (fst (Impl_get Hash this k factory (cache s') w)) = fst (factory w))"
    by blast
qed

theorem refcount_tracks_handles_witness:
  "legal_run (\<lambda>k. k) 0 [Get (161 :: u64) (Some (7 :: nat)), Get 161 (Some 8), Drop 161]
     init_client \<and>
   (\<exists>s. run (\<lambda>k. k) 0 [Get (161 :: u64) (Some (7 :: nat)), Get 161 (Some 8), Drop 161]
          init_client = Inr s \<and>
        live s 161 = 1 \<and>
        cache s 161 = Some \<lparr>referenceCount = 1, entry_value = 7\<rparr> \<and>
        refCountOf (cache s) 161 = 1 \<and>
        Impl_get (\<lambda>k. k) 0 161 (\<lambda>w :: nat. (Some 9, Suc w)) (cache s) 0 =
          (Some (\<lparr>mImpl = Some 0, mKey = 161, mHash = 161\<rparr>, 7),
           (cache s)(161 \<mapsto> \<lparr>referenceCount = 2, entry_value = 7\<rparr>), 0)) \<and>
   legal_run (\<lambda>k. k) 0 [Get (161 :: u64) (Some (7 :: nat)), Get 161 (Some 8), Drop 161, Drop 161]
     init_client \<and>
   (\<exists>s. run (\<lambda>k. k) 0 [Get (161 :: u64) (Some (7 :: nat)), Get 161 (Some 8), Drop 161, Drop 161]
          init_client = Inr s \<and>
        live s 161 = 0 \<and> cache s 161 = None \<and>
        Impl_get (\<lambda>k. k) 0 161 (\<lambda>w :: nat. (Some 9, Suc w)) (cache s) 0 =
          (Some (\<lparr>mImpl = Some 0, mKey = 161, mHash = 161\<rparr>, 9),
           (cache s)(161 \<mapsto> \<lparr>referenceCount = 1, entry_value = 9\<rparr>), 1)) \<and>
   (\<exists>s. run (\<lambda>k. k) 0
          [Get (161 :: u64) (Some (7 :: nat)), Copy 161, Get 161 None, Drop 161, Drop 161]
          init_client = Inr s \<and>
        cache s 161 = Some \<lparr>referenceCount = 1, entry_value = 7\<rparr> \<and>
        (\<exists>s'. run (\<lambda>k. k) 0
               [Get (161 :: u64) (Some (7 :: nat)), Copy 161, Get 161 None, Drop 161, Drop 161,
                Drop 161]
               init_client = Inr s' \<and>
             cache s' 161 = None))"
proof -
  let ?ops1 = "[Get (161 :: u64) (Some (7 :: nat)), Get 161 (Some 8), Drop 161]"
  let ?ops2 = "[Get (161 :: u64) (Some (7 :: nat)), Get 161 (Some 8), Drop 161, Drop 161]"
  have l1: "legal_run (\<lambda>k. k) 0 ?ops1 init_client"
    by (simp add: init_client_def Impl_get_def counting_def Impl_release_def Impl_at_def)
  have l2: "legal_run (\<lambda>k. k) 0 ?ops2 init_client"
    by (simp add: init_client_def Impl_get_def counting_def Impl_release_def Impl_at_def)
  have r1: "run (\<lambda>k. k) 0 ?ops1 init_client =
      Inr \<lparr>cache = [161 \<mapsto> \<lparr>referenceCount = 1, entry_value = 7\<rparr>],
           live = (\<lambda>_. 0)(161 := 1), calls = (\<lambda>_. 0)(161 := 1)\<rparr>"
    by (simp add: init_client_def Impl_get_def counting_def Impl_release_def Impl_at_def)
  have r2: "run (\<lambda>k. k) 0 ?ops2 init_client =
      Inr \<lparr>cache = Map.empty, live = (\<lambda>_. 0)(161 := 0), calls = (\<lambda>_. 0)(161 := 1)\<rparr>"
    by (simp add: init_client_def Impl_get_def counting_def Impl_release_def Impl_at_def)
  from refcount_tracks_handles [where 'w = nat and ops = ?ops1 and Hash = "\<lambda>k. k" and this = 0, THEN conjunct1] l1 r1
  have p1: "\<exists>s. run (\<lambda>k. k) 0 ?ops1 init_client = Inr s \<and>
        live s 161 = 1 \<and>
        cache s 161 = Some \<lparr>referenceCount = 1, entry_value = 7\<rparr> \<and>
        refCountOf (cache s) 161 = 1 \<and>
        Impl_get (\<lambda>k. k) 0 161 (\<lambda>w :: nat. (Some 9, Suc w)) (cache s) 0 =
          (Some (\<lparr>mImpl = Some 0, mKey = 161, mHash = 161\<rparr>, 7),
           (cache s)(161 \<mapsto> \<lparr>referenceCount = 2, entry_value = 7\<rparr>), 0)"
    by (simp add: refCountOf_def Impl_get_def)
  from refcount_tracks_handles [where 'w = nat and ops = ?ops2 and Hash = "\<lambda>k. k" and this = 0, THEN conjunct1] l2 r2
  have p2: "\<exists>s. run (\<lambda>k. k) 0 ?ops2 init_client = Inr s \<and>
        live s 161 = 0 \<and> cache s 161 = None \<and>
        Impl_get (\<lambda>k. k) 0 161 (\<lambda>w :: nat. (Some 9, Suc w)) (cache s) 0 =
          (Some (\<lparr>mImpl = Some 0, mKey = 161, mHash = 161\<rparr>, 9),
           (cache s)(161 \<mapsto> \<lparr>referenceCount = 1, entry_value = 9\<rparr>), 1)"
    by (simp add: Impl_get_def)
  let ?as = "[Copy (161 :: u64), Get 161 (None :: nat option)]"
  have hyp: "\<forall>a\<in>set ?as. a = Copy 161 \<or> (\<exists>r. a = Get 161 r)" by simp
  have len: "Suc (length ?as) < 2 ^ 32" by simp
  have e1: "Get 161 (Some 7) # ?as @ replicate (length ?as) (Drop 161) =
      [Get (161 :: u64) (Some (7 :: nat)), Copy 161, Get 161 None, Drop 161, Drop 161]"
    by (simp add: numeral_2_eq_2)
  have e2: "Get 161 (Some 7) # ?as @ replicate (Suc (length ?as)) (Drop 161) =
      [Get (161 :: u64) (Some (7 :: nat)), Copy 161, Get 161 None, Drop 161, Drop 161, Drop 161]"
    by (simp add: numeral_2_eq_2)
  note t2 = refcount_tracks_handles
      [where 'w = nat and Hash = "\<lambda>k. k" and this = 0 and k = "161 :: u64" and v = "7 :: nat"
         and as = ?as and factory = "\<lambda>w. (None, w)" and w = 0,
       THEN conjunct2, THEN mp, OF hyp, THEN mp, OF len]
  have p3: "\<exists>s. run (\<lambda>k. k) 0
          [Get (161 :: u64) (Some (7 :: nat)), Copy 161, Get 161 None, Drop 161, Drop 161]
          init_client = Inr s \<and>
        cache s 161 = Some \<lparr>referenceCount = 1, entry_value = 7\<rparr> \<and>
        (\<exists>s'. run (\<lambda>k. k) 0
               [Get (161 :: u64) (Some (7 :: nat)), Copy 161, Get 161 None, Drop 161, Drop 161,
                Drop 161]
               init_client = Inr s' \<and>
             cache s' 161 = None)"
    using t2 unfolding e1 e2 by blast
  from l1 l2 p1 p2 p3 show ?thesis by blast
qed

subsection \<open>Failed construction\<close>

text \<open>
  C3. Failed construction is never cached and can be retried. For a key without an
  entry, when the factory returns no value, \<open>get\<close> returns no result and the map is
  unchanged; a following \<open>get\<close> of the key with a factory that returns a value
  inserts a new entry with reference count 1 and returns that value.
\<close>

theorem failed_construction_not_cached:
  assumes "mMap key = None" and "factory w = (None, w1)" and "successfulFactory w1 = (Some v, w2)"
  shows "Impl_get Hash this key factory mMap w = (None, mMap, w1) \<and>
         Impl_get Hash this key successfulFactory mMap w1 =
           (Some (\<lparr>mImpl = Some this, mKey = key, mHash = Hash key\<rparr>, v),
            mMap(key \<mapsto> \<lparr>referenceCount = 1, entry_value = v\<rparr>), w2)"
  using assms by (simp add: Impl_get_miss)

theorem failed_construction_not_cached_witness:
  "(Map.empty :: (u64, nat) Map) 161 = None \<and>
   Impl_get (\<lambda>k. k) 0 (161 :: u64) (\<lambda>w :: nat. (None, Suc w)) (Map.empty :: (u64, nat) Map) 0
     = (None, Map.empty, 1) \<and>
   Impl_get (\<lambda>k. k) 0 (161 :: u64) (\<lambda>w :: nat. (Some 7, Suc w)) (Map.empty :: (u64, nat) Map) 1
     = (Some (\<lparr>mImpl = Some 0, mKey = 161, mHash = 161\<rparr>, 7),
        [161 \<mapsto> \<lparr>referenceCount = 1, entry_value = 7\<rparr>], 2)"
  using failed_construction_not_cached
    [of "Map.empty :: (u64, nat) Map" 161 "\<lambda>w :: nat. (None, Suc w)" 0 1
        "\<lambda>w :: nat. (Some 7, Suc w)" 7 2 "\<lambda>k. k" 0]
  by simp

subsection \<open>Teardown\<close>

lemma Impl_dtor_client:
  assumes "accounted s"
  shows "Impl_dtor (cache s) = Inr () \<longleftrightarrow> (\<forall>key. live s key = 0)"
proof
  assume "Impl_dtor (cache s) = Inr ()"
  then have "dom (cache s) = {}" by (simp add: Impl_dtor_def split: if_splits)
  then have "\<And>key. cache s key = None" by auto
  with accounted_None [OF assms] show "\<forall>key. live s key = 0" by blast
next
  assume l: "\<forall>key. live s key = 0"
  have "cache s key = None" for key
  proof (cases "cache s key")
    case (Some it)
    with accounted_Some [OF assms Some] l show ?thesis by simp
  qed simp
  then have "dom (cache s) = {}" by auto
  then show "Impl_dtor (cache s) = Inr ()" by (simp add: Impl_dtor_def)
qed

text \<open>
  C8. Teardown contract: destroying a cache whose map is empty succeeds silently, and
  destroying a cache in which an entry remains is a fatal precondition failure with the
  message \<open>Freed a non-empty Cache\<close>. For a client as in C2 the map is empty exactly
  when the client holds no handle.
\<close>

theorem teardown_contract:
  fixes mMap :: "('k, 'v) Map"
  shows
  "(dom mMap = {} \<longrightarrow> Impl_dtor mMap = Inr ()) \<and>
   (mMap key = Some it \<longrightarrow>
      Impl_dtor mMap = Inl (PreconditionPanic ''Freed a non-empty Cache'')) \<and>
   (legal_run Hash this ops (init_client :: ('k, 'v) client) \<longrightarrow>
      (\<exists>s. run Hash this ops (init_client :: ('k, 'v) client) = Inr s \<and>
           (if \<forall>key. live s key = 0 then Impl_dtor (cache s) = Inr ()
            else Impl_dtor (cache s) = Inl (PreconditionPanic ''Freed a non-empty Cache''))))"
proof (intro conjI impI)
  assume "dom mMap = {}"
  then show "Impl_dtor mMap = Inr ()" by (simp add: Impl_dtor_def)
next
  assume "mMap key = Some it"
  then have "dom mMap \<noteq> {}" by auto
  then show "Impl_dtor mMap = Inl (PreconditionPanic ''Freed a non-empty Cache'')"
    by (simp add: Impl_dtor_def)
next
  assume "legal_run Hash this ops (init_client :: ('k, 'v) client)"
  from accounted_run [OF accounted_init this]
  obtain s where s: "run Hash this ops (init_client :: ('k, 'v) client) = Inr s" "accounted s"
    by blast
  have "Impl_dtor (cache s) = Inl (PreconditionPanic ''Freed a non-empty Cache'')"
    if "\<not> (\<forall>key. live s key = 0)"
    using that Impl_dtor_client [OF s(2)] by (simp add: Impl_dtor_def split: if_splits)
  with Impl_dtor_client [OF s(2)] s(1)
  show "\<exists>s. run Hash this ops (init_client :: ('k, 'v) client) = Inr s \<and>
           (if \<forall>key. live s key = 0 then Impl_dtor (cache s) = Inr ()
            else Impl_dtor (cache s) = Inl (PreconditionPanic ''Freed a non-empty Cache''))"
    by auto
qed

theorem teardown_contract_witness:
  "Impl_dtor (Map.empty :: (u64, nat) Map) = Inr () \<and>
   Impl_dtor [(161 :: u64) \<mapsto> \<lparr>referenceCount = 1, entry_value = (7 :: nat)\<rparr>]
     = Inl (PreconditionPanic ''Freed a non-empty Cache'') \<and>
   legal_run (\<lambda>k. k) 0 [Get (161 :: u64) (Some (7 :: nat)), Drop 161] init_client \<and>
   (\<exists>s. run (\<lambda>k. k) 0 [Get (161 :: u64) (Some (7 :: nat)), Drop 161] init_client = Inr s \<and>
        live s 161 = 0 \<and> Impl_dtor (cache s) = Inr ()) \<and>
   legal_run (\<lambda>k. k) 0 [Get (161 :: u64) (Some (7 :: nat))] init_client \<and>
   (\<exists>s. run (\<lambda>k. k) 0 [Get (161 :: u64) (Some (7 :: nat))] init_client = Inr s \<and>
        live s 161 = 1 \<and>
        Impl_dtor (cache s) = Inl (PreconditionPanic ''Freed a non-empty Cache''))"
proof -
  let ?ops1 = "[Get (161 :: u64) (Some (7 :: nat)), Drop 161]"
  let ?ops2 = "[Get (161 :: u64) (Some (7 :: nat))]"
  note t = teardown_contract [where 'k = u64 and 'v = nat and Hash = "\<lambda>k. k" and this = 0]
  have a: "Impl_dtor (Map.empty :: (u64, nat) Map) = Inr ()"
    using t [where mMap = Map.empty] by simp
  have b: "Impl_dtor [(161 :: u64) \<mapsto> \<lparr>referenceCount = 1, entry_value = (7 :: nat)\<rparr>]
     = Inl (PreconditionPanic ''Freed a non-empty Cache'')"
    using t [where mMap = "[(161 :: u64) \<mapsto> \<lparr>referenceCount = 1, entry_value = (7 :: nat)\<rparr>]"
               and key = 161 and it = "\<lparr>referenceCount = 1, entry_value = 7\<rparr>"]
    by simp
  have l1: "legal_run (\<lambda>k. k) 0 ?ops1 init_client"
    by (simp add: init_client_def Impl_get_def counting_def Impl_release_def Impl_at_def)
  have l2: "legal_run (\<lambda>k. k) 0 ?ops2 init_client"
    by (simp add: init_client_def Impl_get_def counting_def)
  have r1: "run (\<lambda>k. k) 0 ?ops1 init_client =
      Inr \<lparr>cache = Map.empty, live = (\<lambda>_. 0)(161 := 0), calls = (\<lambda>_. 0)(161 := 1)\<rparr>"
    by (simp add: init_client_def Impl_get_def counting_def Impl_release_def Impl_at_def)
  have r2: "run (\<lambda>k. k) 0 ?ops2 init_client =
      Inr \<lparr>cache = [161 \<mapsto> \<lparr>referenceCount = 1, entry_value = 7\<rparr>],
           live = (\<lambda>_. 0)(161 := 1), calls = (\<lambda>_. 0)(161 := 1)\<rparr>"
    by (simp add: init_client_def Impl_get_def counting_def)
  have c: "\<exists>s. run (\<lambda>k. k) 0 ?ops1 init_client = Inr s \<and>
        live s 161 = 0 \<and> Impl_dtor (cache s) = Inr ()"
  proof -
    from t [where ops = ?ops1] l1 obtain s where
      s: "run (\<lambda>k. k) 0 ?ops1 init_client = Inr s"
         "if \<forall>key. live s key = 0 then Impl_dtor (cache s) = Inr ()
          else Impl_dtor (cache s) = Inl (PreconditionPanic ''Freed a non-empty Cache'')"
      by blast
    from s(1) r1 have l: "\<forall>key. live s key = 0" by auto
    with s(2) have "Impl_dtor (cache s) = Inr ()" by simp
    with s(1) l show ?thesis by blast
  qed
  have d: "\<exists>s. run (\<lambda>k. k) 0 ?ops2 init_client = Inr s \<and>
        live s 161 = 1 \<and>
        Impl_dtor (cache s) = Inl (PreconditionPanic ''Freed a non-empty Cache'')"
  proof -
    from t [where ops = ?ops2] l2 obtain s where
      s: "run (\<lambda>k. k) 0 ?ops2 init_client = Inr s"
         "if \<forall>key. live s key = 0 then Impl_dtor (cache s) = Inr ()
          else Impl_dtor (cache s) = Inl (PreconditionPanic ''Freed a non-empty Cache'')"
      by blast
    from s(1) r2 have l: "live s 161 = 1" by auto
    then have "\<not> (\<forall>key. live s key = 0)" by (metis zero_neq_one)
    with s(2) have "Impl_dtor (cache s) = Inl (PreconditionPanic ''Freed a non-empty Cache'')"
      by simp
    with s(1) l show ?thesis by blast
  qed
  from a b l1 c l2 d show ?thesis by blast
qed

subsection \<open>Assignment of handles\<close>

lemma call_impl_handles:
  "call_impl impl f h = Inr h' \<Longrightarrow> handles h' = handles h"
  by (auto simp: call_impl_def and_then_def split: option.splits sum.splits)

lemma release_if_set_handles:
  "release_if_set a h = Inr h' \<Longrightarrow> handles h' = handles h"
  by (auto simp: release_if_set_def split: option.splits dest: call_impl_handles)

lemma acquire_if_set_handles:
  "acquire_if_set a h = Inr h' \<Longrightarrow> handles h' = handles h"
  by (auto simp: acquire_if_set_def split: option.splits dest: call_impl_handles)

lemma hash_of_key_moved: "hash_of_key Hash x \<Longrightarrow> hash_of_key Hash (x\<lparr>mImpl := None\<rparr>)"
  by (simp add: hash_of_key_def)

lemma hash_of_key_fields:
  "hash_of_key Hash x \<Longrightarrow> hash_of_key Hash \<lparr>mImpl = mImpl x, mKey = mKey x, mHash = mHash x\<rparr>"
  by (simp add: hash_of_key_def)

lemma Handle_move_ctor_hash_of_key:
  assumes "handles_hash_of_key Hash h" and "Handle_move_ctor this rhs h = Inr h'"
  shows "handles_hash_of_key Hash h'"
  using assms
  by (auto simp: handles_hash_of_key_def Handle_move_ctor_def hash_of_key_moved
      split: option.splits if_splits)

lemma Handle_move_assign_hash_of_key:
  assumes "handles_hash_of_key Hash h" and "Handle_move_assign this rhs h = Inr h'"
  shows "handles_hash_of_key Hash h'"
  using assms
  by (auto simp: handles_hash_of_key_def Handle_move_assign_def Let_def hash_of_key_def
      split: option.splits if_splits)

lemma Handle_copy_ctor_hash_of_key:
  assumes "handles_hash_of_key Hash h" and "Handle_copy_ctor this rhs h = Inr h'"
  shows "handles_hash_of_key Hash h'"
proof -
  from assms(2) obtain r where r: "handles h rhs = Some r"
    and a: "acquire_if_set this (h\<lparr>handles := (handles h)(this \<mapsto> r)\<rparr>) = Inr h'"
    by (auto simp: Handle_copy_ctor_def split: option.splits)
  from acquire_if_set_handles [OF a] have "handles h' = (handles h)(this \<mapsto> r)" by simp
  with assms(1) r show ?thesis by (auto simp: handles_hash_of_key_def)
qed

lemma Handle_copy_assign_hash_of_key:
  assumes "handles_hash_of_key Hash h" and "Handle_copy_assign this rhs h = Inr h'"
  shows "handles_hash_of_key Hash h'"
proof -
  from assms(2) obtain h1 h2 r where h1: "release_if_set this h = Inr h1"
    and h2: "acquire_if_set rhs h1 = Inr h2" and r: "handles h2 rhs = Some r"
    and h': "h' = h2\<lparr>handles :=
              (handles h2)(this \<mapsto> \<lparr>mImpl = mImpl r, mKey = mKey r, mHash = mHash r\<rparr>)\<rparr>"
    by (auto simp: Handle_copy_assign_def and_then_def split: sum.splits option.splits)
  from release_if_set_handles [OF h1] acquire_if_set_handles [OF h2]
  have "handles h2 = handles h" by simp
  with assms(1) r h' show ?thesis
    by (auto simp: handles_hash_of_key_def hash_of_key_def)
qed

lemma Handle_dtor_hash_of_key:
  assumes "handles_hash_of_key Hash h" and "Handle_dtor this h = Inr h'"
  shows "handles_hash_of_key Hash h'"
proof -
  from assms(2) obtain h1 where h1: "release_if_set this h = Inr h1"
    and h': "h' = h1\<lparr>handles := (handles h1)(this := None)\<rparr>"
    by (auto simp: Handle_dtor_def and_then_def split: sum.splits)
  from release_if_set_handles [OF h1] assms(1) h' show ?thesis
    by (auto simp: handles_hash_of_key_def)
qed

text \<open>The destructor of a moved-from handle leaves every map as it was.\<close>

lemma Handle_move_ctor_impls:
  "Handle_move_ctor this rhs h = Inr h' \<Longrightarrow> impls h' = impls h"
  by (auto simp: Handle_move_ctor_def split: option.splits)

lemma Handle_dtor_moved_from:
  assumes "this \<noteq> rhs" and "Handle_move_ctor this rhs h = Inr h1"
  shows "\<exists>h2. Handle_dtor rhs h1 = Inr h2 \<and> impls h2 = impls h"
  using assms
  by (auto simp: Handle_move_ctor_def Handle_dtor_def release_if_set_def and_then_def
      split: option.splits)

lemma Handle_move_assign_impls:
  "Handle_move_assign this rhs h = Inr h' \<Longrightarrow> impls h' = impls h"
  by (auto simp: Handle_move_assign_def Let_def split: option.splits if_splits)

text \<open>
  C4. Release on reassignment away from a key. The copy assignment releases the entry
  that \<open>*this\<close> referred to; the move assignment does not. Two entries with count 1
  in the \<open>Impl\<close> at 0, the handle at 100 on key 1, the handle at 200 on key 2:
  after the move assignment of 200 onto 100 the maps are as they were, so entry 1 still
  has count 1 and no handle refers to it; after the copy assignment of 200 onto 100
  entry 1 is erased and entry 2 has count 2.
\<close>

theorem move_assign_skips_release:
  "Handle_move_assign 100 200
     \<lparr>impls = [0 \<mapsto> [(1 :: u64) \<mapsto> \<lparr>referenceCount = 1, entry_value = (10 :: nat)\<rparr>,
                       2 \<mapsto> \<lparr>referenceCount = 1, entry_value = 20\<rparr>]],
      handles = [100 \<mapsto> \<lparr>mImpl = Some 0, mKey = 1, mHash = 1\<rparr>,
                 200 \<mapsto> \<lparr>mImpl = Some 0, mKey = 2, mHash = 2\<rparr>]\<rparr>
   = Inr \<lparr>impls = [0 \<mapsto> [(1 :: u64) \<mapsto> \<lparr>referenceCount = 1, entry_value = (10 :: nat)\<rparr>,
                           2 \<mapsto> \<lparr>referenceCount = 1, entry_value = 20\<rparr>]],
          handles = [100 \<mapsto> \<lparr>mImpl = Some 0, mKey = 2, mHash = 2\<rparr>,
                     200 \<mapsto> \<lparr>mImpl = None, mKey = 2, mHash = 2\<rparr>]\<rparr> \<and>
   referencing
     \<lparr>impls = [0 \<mapsto> [(1 :: u64) \<mapsto> \<lparr>referenceCount = 1, entry_value = (10 :: nat)\<rparr>,
                       2 \<mapsto> \<lparr>referenceCount = 1, entry_value = 20\<rparr>]],
      handles = [100 \<mapsto> \<lparr>mImpl = Some 0, mKey = 2, mHash = 2\<rparr>,
                 200 \<mapsto> \<lparr>mImpl = None, mKey = 2, mHash = 2\<rparr>]\<rparr> 0 1 [100, 200] = [] \<and>
   (case Handle_copy_assign 100 200
      \<lparr>impls = [0 \<mapsto> [(1 :: u64) \<mapsto> \<lparr>referenceCount = 1, entry_value = (10 :: nat)\<rparr>,
                        2 \<mapsto> \<lparr>referenceCount = 1, entry_value = 20\<rparr>]],
       handles = [100 \<mapsto> \<lparr>mImpl = Some 0, mKey = 1, mHash = 1\<rparr>,
                  200 \<mapsto> \<lparr>mImpl = Some 0, mKey = 2, mHash = 2\<rparr>]\<rparr> of
      Inl p \<Rightarrow> False
    | Inr h \<Rightarrow>
        handles h 100 = Some \<lparr>mImpl = Some 0, mKey = 2, mHash = 2\<rparr> \<and>
        handles h 200 = Some \<lparr>mImpl = Some 0, mKey = 2, mHash = 2\<rparr> \<and>
        (case impls h 0 of
           None \<Rightarrow> False
         | Some m \<Rightarrow> m 1 = None \<and> m 2 = Some \<lparr>referenceCount = 2, entry_value = 20\<rparr>))"
  by (simp add: Handle_move_assign_def Handle_copy_assign_def release_if_set_def
      acquire_if_set_def call_impl_def and_then_def Impl_release_def Impl_acquire_def
      Impl_at_def referencing_def)

text \<open>
  C5. Self-assignment. One entry with count 1 and the one handle of it at 100: the copy
  assignment of the handle to itself releases first, which takes the count to 0 and
  erases the entry, and the acquire that follows fails the precondition of \<open>at\<close>.
  With a second handle of the key at 200 (count 2), assigning 200 onto 100, or 100 to
  itself, leaves the count and the entry as they were.
\<close>

theorem self_assignment_evicts:
  "Handle_copy_assign 100 100
     \<lparr>impls = [0 \<mapsto> [(1 :: u64) \<mapsto> \<lparr>referenceCount = 1, entry_value = (10 :: nat)\<rparr>]],
      handles = [100 \<mapsto> \<lparr>mImpl = Some 0, mKey = 1, mHash = 1\<rparr>]\<rparr>
   = Inl (PreconditionPanic ''Cache is somehow missing entry'') \<and>
   release_if_set 100
     \<lparr>impls = [0 \<mapsto> [(1 :: u64) \<mapsto> \<lparr>referenceCount = 1, entry_value = (10 :: nat)\<rparr>]],
      handles = [100 \<mapsto> \<lparr>mImpl = Some 0, mKey = 1, mHash = 1\<rparr>]\<rparr>
   = Inr \<lparr>impls = [0 \<mapsto> Map.empty],
          handles = [100 \<mapsto> \<lparr>mImpl = Some 0, mKey = 1, mHash = 1\<rparr>]\<rparr> \<and>
   Handle_copy_assign 100 200
     \<lparr>impls = [0 \<mapsto> [(1 :: u64) \<mapsto> \<lparr>referenceCount = 2, entry_value = (10 :: nat)\<rparr>]],
      handles = [100 \<mapsto> \<lparr>mImpl = Some 0, mKey = 1, mHash = 1\<rparr>,
                 200 \<mapsto> \<lparr>mImpl = Some 0, mKey = 1, mHash = 1\<rparr>]\<rparr>
   = Inr \<lparr>impls = [0 \<mapsto> [(1 :: u64) \<mapsto> \<lparr>referenceCount = 2, entry_value = (10 :: nat)\<rparr>]],
          handles = [200 \<mapsto> \<lparr>mImpl = Some 0, mKey = 1, mHash = 1\<rparr>,
                     100 \<mapsto> \<lparr>mImpl = Some 0, mKey = 1, mHash = 1\<rparr>]\<rparr> \<and>
   (case Handle_copy_assign 100 100
      \<lparr>impls = [0 \<mapsto> [(1 :: u64) \<mapsto> \<lparr>referenceCount = 2, entry_value = (10 :: nat)\<rparr>]],
       handles = [100 \<mapsto> \<lparr>mImpl = Some 0, mKey = 1, mHash = 1\<rparr>,
                  200 \<mapsto> \<lparr>mImpl = Some 0, mKey = 1, mHash = 1\<rparr>]\<rparr> of
      Inl p \<Rightarrow> False
    | Inr h \<Rightarrow>
        handles h 100 = Some \<lparr>mImpl = Some 0, mKey = 1, mHash = 1\<rparr> \<and>
        handles h 200 = Some \<lparr>mImpl = Some 0, mKey = 1, mHash = 1\<rparr> \<and>
        impls h 0 = Some [1 \<mapsto> \<lparr>referenceCount = 2, entry_value = 10\<rparr>])"
  by (simp add: Handle_copy_assign_def release_if_set_def
      acquire_if_set_def call_impl_def and_then_def Impl_release_def Impl_acquire_def
      Impl_at_def)

section \<open>Properties of the material cache\<close>

lemmas example_defs = example_externals_def example_engine_def

lemma create_unchecked:
  "\<not> check_crc32_after_loading engine \<Longrightarrow>
   create X engine payload parser =
     (if bit (case getShaderModels parser of None \<Rightarrow> 0 | Some v \<Rightarrow> v)
           (shaderModelBit X (getShaderModel engine))
      then Some (new_MaterialDefinition X engine parser) else None)"
  by (simp add: create_def)

lemma create_checked:
  "check_crc32_after_loading engine \<Longrightarrow>
   create X engine payload parser =
     (if (case getMaterialCrc32 parser of None \<Rightarrow> 0 | Some c \<Rightarrow> c) \<noteq> crc32Update X payload
      then None
      else if bit (case getShaderModels parser of None \<Rightarrow> 0 | Some v \<Rightarrow> v)
           (shaderModelBit X (getShaderModel engine))
      then Some (new_MaterialDefinition X engine parser) else None)"
  by (simp add: create_def)

lemma getDefinition_miss:
  assumes "createParser X (getBackend mEngine) (getShaderLanguage mEngine) payload
             = Inr (Some parser)"
    and "getCacheId parser = Some cacheId" and "mDefinitionCache cacheId = None"
  shows "getDefinition X Hash this mEngine payload mDefinitionCache =
     (case create X mEngine payload parser of
        None \<Rightarrow> Inr (None, mDefinitionCache)
      | Some d \<Rightarrow>
          Inr (Some (\<lparr>mImpl = Some this, mKey = cacheId, mHash = Hash cacheId\<rparr>, d),
               mDefinitionCache(cacheId \<mapsto> \<lparr>referenceCount = 1, entry_value = d\<rparr>)))"
  using assms by (simp add: getDefinition_def Impl_get_miss split: option.splits)

lemma createParser_cases:
  "createParser X backend languages dat =
     (if parse (new_MaterialParser X languages dat) = ERROR_MISSING_BACKEND then
        Inl (PostconditionPanic
          ''the material was not built for any of the backend's supported shader languages'')
      else if backend = NOOP then Inr (Some (new_MaterialParser X languages dat))
      else if parse (new_MaterialParser X languages dat) = ERROR_OTHER then
        Inl (PostconditionPanic ''could not parse the material package'')
      else if (case getMaterialVersion (new_MaterialParser X languages dat) of
                 None \<Rightarrow> 0 | Some v \<Rightarrow> v) \<noteq> MATERIAL_VERSION X then
        Inl (PostconditionPanic ''Material version mismatch'')
      else Inr (Some (new_MaterialParser X languages dat)))"
  by (cases "parse (new_MaterialParser X languages dat)") (simp_all add: createParser_def Let_def)

lemma getDefinition_panics:
  "createParser X (getBackend mEngine) (getShaderLanguage mEngine) payload = Inl p \<Longrightarrow>
   getDefinition X Hash this mEngine payload mDefinitionCache = Inl p"
  by (simp add: getDefinition_def)

subsection \<open>Malformed packages\<close>

text \<open>
  C6, as stated: every malformed package makes \<open>getDefinition\<close> return an empty
  optional, and none is fatal. It fails for a package that was built for none of the
  backend's shader languages: \<open>createParser\<close> ends in a failed postcondition.
\<close>

theorem missing_backend_is_fatal:
  "getDefinition example_externals (\<lambda>k. k) 0 (example_engine True)
     \<lparr>parse = ERROR_MISSING_BACKEND, getMaterialVersion = Some 58, getCacheId = Some 161,
      getMaterialCrc32 = Some 51966, getShaderModels = Some 6\<rparr>
     Map.empty
   = Inl (PostconditionPanic
       ''the material was not built for any of the backend's supported shader languages'') \<and>
   getDefinition example_externals (\<lambda>k. k) 0 (example_engine True)
     \<lparr>parse = ERROR_MISSING_BACKEND, getMaterialVersion = Some 58, getCacheId = Some 161,
      getMaterialCrc32 = Some 51966, getShaderModels = Some 6\<rparr>
     Map.empty
   \<noteq> Inr (None, Map.empty)"
  by (simp add: getDefinition_def createParser_def example_defs)

text \<open>
  C6, amended. A package without a cache id and, for a cache id that has no entry, a
  checksum mismatch (with \<open>check_crc32_after_loading\<close> on) or a shader-model mismatch
  make \<open>getDefinition\<close> return an empty optional and leave the cache as it was. A
  package built for none of the backend's shader languages and, on a backend other than
  \<open>NOOP\<close>, a package that does not parse or has another material version, end in a
  failed postcondition.
\<close>

theorem malformed_input_outcomes:
  fixes X :: "('l, 'p, 'd) externals"
  shows
  "(parse (new_MaterialParser X (getShaderLanguage mEngine) payload) = ERROR_MISSING_BACKEND \<longrightarrow>
      getDefinition X Hash this mEngine payload mDefinitionCache =
        Inl (PostconditionPanic
          ''the material was not built for any of the backend's supported shader languages'')) \<and>
   (getBackend mEngine \<noteq> NOOP \<longrightarrow>
    parse (new_MaterialParser X (getShaderLanguage mEngine) payload) = ERROR_OTHER \<longrightarrow>
      getDefinition X Hash this mEngine payload mDefinitionCache =
        Inl (PostconditionPanic ''could not parse the material package'')) \<and>
   (getBackend mEngine \<noteq> NOOP \<longrightarrow>
    parse (new_MaterialParser X (getShaderLanguage mEngine) payload) = SUCCESS \<longrightarrow>
    (case getMaterialVersion (new_MaterialParser X (getShaderLanguage mEngine) payload) of
       None \<Rightarrow> 0 | Some v \<Rightarrow> v) \<noteq> MATERIAL_VERSION X \<longrightarrow>
      getDefinition X Hash this mEngine payload mDefinitionCache =
        Inl (PostconditionPanic ''Material version mismatch'')) \<and>
   (createParser X (getBackend mEngine) (getShaderLanguage mEngine) payload = Inr (Some parser) \<longrightarrow>
    getCacheId parser = None \<longrightarrow>
      getDefinition X Hash this mEngine payload mDefinitionCache = Inr (None, mDefinitionCache)) \<and>
   (createParser X (getBackend mEngine) (getShaderLanguage mEngine) payload = Inr (Some parser) \<longrightarrow>
    getCacheId parser = Some cacheId \<longrightarrow> mDefinitionCache cacheId = None \<longrightarrow>
    check_crc32_after_loading mEngine \<longrightarrow>
    (case getMaterialCrc32 parser of None \<Rightarrow> 0 | Some c \<Rightarrow> c) \<noteq> crc32Update X payload \<longrightarrow>
      getDefinition X Hash this mEngine payload mDefinitionCache = Inr (None, mDefinitionCache)) \<and>
   (createParser X (getBackend mEngine) (getShaderLanguage mEngine) payload = Inr (Some parser) \<longrightarrow>
    getCacheId parser = Some cacheId \<longrightarrow> mDefinitionCache cacheId = None \<longrightarrow>
    \<not> bit (case getShaderModels parser of None \<Rightarrow> 0 | Some v \<Rightarrow> v)
          (shaderModelBit X (getShaderModel mEngine)) \<longrightarrow>
      getDefinition X Hash this mEngine payload mDefinitionCache = Inr (None, mDefinitionCache))"
proof (intro conjI impI)
  assume "parse (new_MaterialParser X (getShaderLanguage mEngine) payload) = ERROR_MISSING_BACKEND"
  then show "getDefinition X Hash this mEngine payload mDefinitionCache =
        Inl (PostconditionPanic
          ''the material was not built for any of the backend's supported shader languages'')"
    by (intro getDefinition_panics) (simp add: createParser_cases)
next
  assume "getBackend mEngine \<noteq> NOOP"
    and "parse (new_MaterialParser X (getShaderLanguage mEngine) payload) = ERROR_OTHER"
  then show "getDefinition X Hash this mEngine payload mDefinitionCache =
        Inl (PostconditionPanic ''could not parse the material package'')"
    by (intro getDefinition_panics) (simp add: createParser_cases)
next
  assume "getBackend mEngine \<noteq> NOOP"
    and "parse (new_MaterialParser X (getShaderLanguage mEngine) payload) = SUCCESS"
    and "(case getMaterialVersion (new_MaterialParser X (getShaderLanguage mEngine) payload) of
       None \<Rightarrow> 0 | Some v \<Rightarrow> v) \<noteq> MATERIAL_VERSION X"
  then show "getDefinition X Hash this mEngine payload mDefinitionCache =
        Inl (PostconditionPanic ''Material version mismatch'')"
    by (intro getDefinition_panics) (simp add: createParser_cases)
next
  assume "createParser X (getBackend mEngine) (getShaderLanguage mEngine) payload = Inr (Some parser)"
    and "getCacheId parser = None"
  then show "getDefinition X Hash this mEngine payload mDefinitionCache = Inr (None, mDefinitionCache)"
    by (simp add: getDefinition_def)
next
  assume "createParser X (getBackend mEngine) (getShaderLanguage mEngine) payload = Inr (Some parser)"
    and "getCacheId parser = Some cacheId" and "mDefinitionCache cacheId = None"
    and "check_crc32_after_loading mEngine"
    and "(case getMaterialCrc32 parser of None \<Rightarrow> 0 | Some c \<Rightarrow> c) \<noteq> crc32Update X payload"
  then show "getDefinition X Hash this mEngine payload mDefinitionCache = Inr (None, mDefinitionCache)"
    by (simp add: getDefinition_miss create_checked)
next
  assume "createParser X (getBackend mEngine) (getShaderLanguage mEngine) payload = Inr (Some parser)"
    and "getCacheId parser = Some cacheId" and "mDefinitionCache cacheId = None"
    and "\<not> bit (case getShaderModels parser of None \<Rightarrow> 0 | Some v \<Rightarrow> v)
          (shaderModelBit X (getShaderModel mEngine))"
  then show "getDefinition X Hash this mEngine payload mDefinitionCache = Inr (None, mDefinitionCache)"
    by (cases "check_crc32_after_loading mEngine")
       (simp_all add: getDefinition_miss create_checked create_unchecked)
qed

theorem malformed_input_outcomes_witness:
  "getDefinition example_externals (\<lambda>k. k) 0 (example_engine True)
     \<lparr>parse = ERROR_MISSING_BACKEND, getMaterialVersion = Some 58, getCacheId = Some 161,
      getMaterialCrc32 = Some 51966, getShaderModels = Some 6\<rparr>
     Map.empty
   = Inl (PostconditionPanic
       ''the material was not built for any of the backend's supported shader languages'') \<and>
   getDefinition example_externals (\<lambda>k. k) 0 (example_engine True)
     \<lparr>parse = ERROR_OTHER, getMaterialVersion = Some 58, getCacheId = Some 161,
      getMaterialCrc32 = Some 51966, getShaderModels = Some 6\<rparr>
     Map.empty
   = Inl (PostconditionPanic ''could not parse the material package'') \<and>
   getDefinition example_externals (\<lambda>k. k) 0 (example_engine True)
     \<lparr>parse = SUCCESS, getMaterialVersion = Some 57, getCacheId = Some 161,
      getMaterialCrc32 = Some 51966, getShaderModels = Some 6\<rparr>
     Map.empty
   = Inl (PostconditionPanic ''Material version mismatch'') \<and>
   getDefinition example_externals (\<lambda>k. k) 0 (example_engine True)
     \<lparr>parse = SUCCESS, getMaterialVersion = Some 58, getCacheId = None,
      getMaterialCrc32 = Some 51966, getShaderModels = Some 6\<rparr>
     Map.empty
   = Inr (None, Map.empty) \<and>
   getDefinition example_externals (\<lambda>k. k) 0 (example_engine True)
     \<lparr>parse = SUCCESS, getMaterialVersion = Some 58, getCacheId = Some 161,
      getMaterialCrc32 = Some 1, getShaderModels = Some 6\<rparr>
     Map.empty
   = Inr (None, Map.empty) \<and>
   getDefinition example_externals (\<lambda>k. k) 0 (example_engine True)
     \<lparr>parse = SUCCESS, getMaterialVersion = Some 58, getCacheId = Some 161,
      getMaterialCrc32 = Some 51966, getShaderModels = Some 2\<rparr>
     Map.empty
   = Inr (None, Map.empty)"
proof -
  let ?X = example_externals and ?e = "example_engine True"
  let ?p1 = "\<lparr>parse = ERROR_MISSING_BACKEND, getMaterialVersion = Some 58, getCacheId = Some 161,
      getMaterialCrc32 = Some 51966, getShaderModels = Some 6\<rparr>"
  let ?p2 = "\<lparr>parse = ERROR_OTHER, getMaterialVersion = Some 58, getCacheId = Some 161,
      getMaterialCrc32 = Some 51966, getShaderModels = Some 6\<rparr>"
  let ?p3 = "\<lparr>parse = SUCCESS, getMaterialVersion = Some 57, getCacheId = Some 161,
      getMaterialCrc32 = Some 51966, getShaderModels = Some 6\<rparr>"
  let ?p4 = "\<lparr>parse = SUCCESS, getMaterialVersion = Some 58, getCacheId = None,
      getMaterialCrc32 = Some 51966, getShaderModels = Some 6\<rparr>"
  let ?p5 = "\<lparr>parse = SUCCESS, getMaterialVersion = Some 58, getCacheId = Some 161,
      getMaterialCrc32 = Some 1, getShaderModels = Some 6\<rparr>"
  let ?p6 = "\<lparr>parse = SUCCESS, getMaterialVersion = Some 58, getCacheId = Some 161,
      getMaterialCrc32 = Some 51966, getShaderModels = Some 2\<rparr>"
  note t = malformed_input_outcomes
    [where X = ?X and mEngine = ?e and Hash = "\<lambda>k. k" and this = 0
       and mDefinitionCache = Map.empty and cacheId = 161]
  have 1: "getDefinition ?X (\<lambda>k. k) 0 ?e ?p1 Map.empty
     = Inl (PostconditionPanic
       ''the material was not built for any of the backend's supported shader languages'')"
    using t [where payload = ?p1, THEN conjunct1] by (simp add: example_defs)
  have 2: "getDefinition ?X (\<lambda>k. k) 0 ?e ?p2 Map.empty
     = Inl (PostconditionPanic ''could not parse the material package'')"
    using t [where payload = ?p2, THEN conjunct2, THEN conjunct1] by (simp add: example_defs)
  have 3: "getDefinition ?X (\<lambda>k. k) 0 ?e ?p3 Map.empty
     = Inl (PostconditionPanic ''Material version mismatch'')"
    using t [where payload = ?p3, THEN conjunct2, THEN conjunct2, THEN conjunct1]
    by (simp add: example_defs)
  have 4: "getDefinition ?X (\<lambda>k. k) 0 ?e ?p4 Map.empty = Inr (None, Map.empty)"
    using t [where payload = ?p4 and parser = ?p4,
             THEN conjunct2, THEN conjunct2, THEN conjunct2, THEN conjunct1]
    by (simp add: example_defs createParser_def)
  have 5: "getDefinition ?X (\<lambda>k. k) 0 ?e ?p5 Map.empty = Inr (None, Map.empty)"
    using t [where payload = ?p5 and parser = ?p5,
             THEN conjunct2, THEN conjunct2, THEN conjunct2, THEN conjunct2, THEN conjunct1]
    by (simp add: example_defs createParser_def)
  have 6: "getDefinition ?X (\<lambda>k. k) 0 ?e ?p6 Map.empty = Inr (None, Map.empty)"
    using t [where payload = ?p6 and parser = ?p6,
             THEN conjunct2, THEN conjunct2, THEN conjunct2, THEN conjunct2, THEN conjunct2]
    by (simp add: example_defs createParser_def)
  from 1 2 3 4 5 6 show ?thesis by blast
qed

subsection \<open>The checksum\<close>

text \<open>
  C10. The CRC32 check of \<open>MaterialDefinition::create\<close> is conditional. With
  \<open>check_crc32_after_loading\<close> off the result does not depend on the stored CRC32;
  with it on, a stored CRC32 that differs from the computed one gives no value. So with
  the flag off a package whose stored CRC32 is wrong, which the parser and the shader
  model accept and whose cache id has no entry, is inserted into the cache.
\<close>

theorem crc32_check_is_conditional:
  fixes X :: "('l, 'p, 'd) externals"
  shows
  "(\<not> check_crc32_after_loading engine \<longrightarrow>
      create X engine payload parser =
        (if bit (case getShaderModels parser of None \<Rightarrow> 0 | Some v \<Rightarrow> v)
              (shaderModelBit X (getShaderModel engine))
         then Some (new_MaterialDefinition X engine parser) else None)) \<and>
   (check_crc32_after_loading engine \<longrightarrow>
      (case getMaterialCrc32 parser of None \<Rightarrow> 0 | Some c \<Rightarrow> c) \<noteq> crc32Update X payload \<longrightarrow>
      create X engine payload parser = None) \<and>
   (\<not> check_crc32_after_loading engine \<longrightarrow>
      (case getMaterialCrc32 parser of None \<Rightarrow> 0 | Some c \<Rightarrow> c) \<noteq> crc32Update X payload \<longrightarrow>
      bit (case getShaderModels parser of None \<Rightarrow> 0 | Some v \<Rightarrow> v)
        (shaderModelBit X (getShaderModel engine)) \<longrightarrow>
      createParser X (getBackend engine) (getShaderLanguage engine) payload = Inr (Some parser) \<longrightarrow>
      getCacheId parser = Some cacheId \<longrightarrow> mDefinitionCache cacheId = None \<longrightarrow>
      getDefinition X Hash this engine payload mDefinitionCache =
        Inr (Some (\<lparr>mImpl = Some this, mKey = cacheId, mHash = Hash cacheId\<rparr>,
                   new_MaterialDefinition X engine parser),
             mDefinitionCache(cacheId \<mapsto>
               \<lparr>referenceCount = 1, entry_value = new_MaterialDefinition X engine parser\<rparr>)))"
proof (intro conjI impI)
  assume "\<not> check_crc32_after_loading engine"
  then show "create X engine payload parser =
        (if bit (case getShaderModels parser of None \<Rightarrow> 0 | Some v \<Rightarrow> v)
              (shaderModelBit X (getShaderModel engine))
         then Some (new_MaterialDefinition X engine parser) else None)"
    by (rule create_unchecked)
next
  assume "check_crc32_after_loading engine"
    and "(case getMaterialCrc32 parser of None \<Rightarrow> 0 | Some c \<Rightarrow> c) \<noteq> crc32Update X payload"
  then show "create X engine payload parser = None"
    by (simp add: create_checked)
next
  assume a: "\<not> check_crc32_after_loading engine"
    "bit (case getShaderModels parser of None \<Rightarrow> 0 | Some v \<Rightarrow> v)
        (shaderModelBit X (getShaderModel engine))"
    "createParser X (getBackend engine) (getShaderLanguage engine) payload = Inr (Some parser)"
    "getCacheId parser = Some cacheId" "mDefinitionCache cacheId = None"
  show "getDefinition X Hash this engine payload mDefinitionCache =
        Inr (Some (\<lparr>mImpl = Some this, mKey = cacheId, mHash = Hash cacheId\<rparr>,
                   new_MaterialDefinition X engine parser),
             mDefinitionCache(cacheId \<mapsto>
               \<lparr>referenceCount = 1, entry_value = new_MaterialDefinition X engine parser\<rparr>))"
    using a by (simp add: getDefinition_miss create_unchecked)
qed

theorem crc32_check_is_conditional_witness:
  "(case getMaterialCrc32
        \<lparr>parse = SUCCESS, getMaterialVersion = Some 58, getCacheId = Some 161,
         getMaterialCrc32 = Some 1, getShaderModels = Some 6\<rparr> of None \<Rightarrow> 0 | Some c \<Rightarrow> c)
     \<noteq> crc32Update example_externals
          \<lparr>parse = SUCCESS, getMaterialVersion = Some 58, getCacheId = Some 161,
           getMaterialCrc32 = Some 1, getShaderModels = Some 6\<rparr> \<and>
   getDefinition example_externals (\<lambda>k. k) 0 (example_engine False)
     \<lparr>parse = SUCCESS, getMaterialVersion = Some 58, getCacheId = Some 161,
      getMaterialCrc32 = Some 1, getShaderModels = Some 6\<rparr>
     Map.empty
   = Inr (Some (\<lparr>mImpl = Some 0, mKey = 161, mHash = 161\<rparr>, 7),
          [161 \<mapsto> \<lparr>referenceCount = 1, entry_value = 7\<rparr>]) \<and>
   create example_externals (example_engine True)
     \<lparr>parse = SUCCESS, getMaterialVersion = Some 58, getCacheId = Some 161,
      getMaterialCrc32 = Some 1, getShaderModels = Some 6\<rparr>
     \<lparr>parse = SUCCESS, getMaterialVersion = Some 58, getCacheId = Some 161,
      getMaterialCrc32 = Some 1, getShaderModels = Some 6\<rparr>
   = None"
proof -
  let ?p = "\<lparr>parse = SUCCESS, getMaterialVersion = Some 58, getCacheId = Some 161,
      getMaterialCrc32 = Some 1, getShaderModels = Some 6\<rparr>"
  have cp: "createParser example_externals (getBackend (example_engine False))
              (getShaderLanguage (example_engine False)) ?p = Inr (Some ?p)"
    by (simp add: createParser_def example_defs)
  have b: "bit (case getShaderModels ?p of None \<Rightarrow> 0 | Some v \<Rightarrow> v)
        (shaderModelBit example_externals (getShaderModel (example_engine False)))"
    by (simp add: example_defs)
  have c: "(case getMaterialCrc32 ?p of None \<Rightarrow> 0 | Some c \<Rightarrow> c)
             \<noteq> crc32Update example_externals ?p"
    by (simp add: example_defs)
  have off: "\<not> check_crc32_after_loading (example_engine False)"
    and on: "check_crc32_after_loading (example_engine True)"
    by (simp_all add: example_defs)
  have d: "new_MaterialDefinition example_externals (example_engine False) ?p = 7"
    by (simp add: example_defs)
  from cp b c off on d
       crc32_check_is_conditional
         [where X = example_externals and engine = "example_engine False" and payload = ?p
            and parser = ?p and cacheId = 161
            and mDefinitionCache = Map.empty and Hash = "\<lambda>k. k" and this = 0]
       crc32_check_is_conditional
         [where X = example_externals and engine = "example_engine True" and payload = ?p
            and parser = ?p and cacheId = 161
            and mDefinitionCache = Map.empty and Hash = "\<lambda>k. k" and this = 0]
  show ?thesis by simp
qed

subsection \<open>Programs\<close>

lemma getProgram_value:
  fixes mProgramCache :: "(('c, 't) Specialization, 'h) Map"
  shows
  "getProgram null_program Hash this specialization priorityQueue mProgramCache =
     (case mProgramCache specialization of
        None \<Rightarrow>
          (Some (\<lparr>mImpl = Some this, mKey = specialization, mHash = Hash specialization\<rparr>,
                 null_program),
           mProgramCache(specialization \<mapsto> \<lparr>referenceCount = 1, entry_value = null_program\<rparr>))
      | Some it \<Rightarrow>
          (Some (\<lparr>mImpl = Some this, mKey = specialization, mHash = Hash specialization\<rparr>,
                 entry_value it),
           mProgramCache(specialization \<mapsto> it\<lparr>referenceCount := referenceCount it + 1\<rparr>)))"
  by (cases "mProgramCache specialization") (simp_all add: getProgram_def Impl_get_def)

text \<open>
  C7. The miss path of the program store, as stated: the factory of \<open>getProgram\<close>
  invokes the backend's compilation for the specialization, and \<open>getProgram\<close> returns
  no value and inserts no entry when the compilation fails. The factory in the code is
  \<open>[]() { return Program{}; }\<close>: called on the empty program cache, for a specialization
  and for one that differs from it in the variant, \<open>getProgram\<close> compiles nothing,
  inserts an entry with reference count 1 that holds the default-constructed (null)
  program handle, the same for both, and returns it; a second call for the first
  specialization returns the stored null program with count 2.
\<close>

theorem getProgram_compiles_nothing:
  "getProgram (4294967295 :: u32) (\<lambda>s. 5) 1 example_specialization () Map.empty
     = (Some (\<lparr>mImpl = Some 1, mKey = example_specialization, mHash = 5\<rparr>, 4294967295),
        [example_specialization \<mapsto> \<lparr>referenceCount = 1, entry_value = 4294967295\<rparr>]) \<and>
   getProgram (4294967295 :: u32) (\<lambda>s. 5) 1
       (example_specialization\<lparr>variant := \<lparr>variant_key = 4\<rparr>\<rparr>) () Map.empty
     = (Some (\<lparr>mImpl = Some 1, mKey = example_specialization\<lparr>variant := \<lparr>variant_key = 4\<rparr>\<rparr>,
                mHash = 5\<rparr>, 4294967295),
        [example_specialization\<lparr>variant := \<lparr>variant_key = 4\<rparr>\<rparr>
           \<mapsto> \<lparr>referenceCount = 1, entry_value = 4294967295\<rparr>]) \<and>
   getProgram (4294967295 :: u32) (\<lambda>s. 5) 1 example_specialization ()
       [example_specialization \<mapsto> \<lparr>referenceCount = 1, entry_value = 4294967295\<rparr>]
     = (Some (\<lparr>mImpl = Some 1, mKey = example_specialization, mHash = 5\<rparr>, 4294967295),
        [example_specialization \<mapsto> \<lparr>referenceCount = 2, entry_value = 4294967295\<rparr>])"
  by (simp add: getProgram_def Impl_get_def)

subsection \<open>Specializations as keys\<close>

lemma foldl_concat_map:
  "foldl f s (concat (map g xs)) = foldl (\<lambda>s x. foldl f s (g x)) s xs"
  by (induction xs arbitrary: s) simp_all

lemma Specialization_Hash_fold:
  "Specialization_Hash G v = foldl (mix G) 0 (mixed_in G v)"
  by (simp add: Specialization_Hash_def mixed_in_def Let_def foldl_concat_map)

lemma Impl_get_hash_of_key:
  "Impl_get Hash this key factory mMap w = (Some (x, v), m, w') \<Longrightarrow>
   hash_of_key Hash x \<and> mImpl x = Some this \<and> mKey x = key"
  by (auto simp: Impl_get_def Let_def hash_of_key_def split: option.splits prod.splits)

lemma Specialization_eq_fields:
  "Specialization_eq lhs rhs \<longleftrightarrow>
     mImpl (spec_definition lhs) = mImpl (spec_definition rhs) \<and>
     mKey (spec_definition lhs) = mKey (spec_definition rhs) \<and>
     variant_key (variant lhs) = variant_key (variant rhs) \<and>
     specializationConstants lhs = specializationConstants rhs \<and>
     pushConstants lhs = pushConstants rhs"
  by (auto simp: Specialization_eq_def Handle_eq_def)

lemma Specialization_eq_Hash:
  assumes "Specialization_eq lhs rhs"
    and "hash_of_key Hash (spec_definition lhs)" and "hash_of_key Hash (spec_definition rhs)"
  shows "Specialization_Hash G lhs = Specialization_Hash G rhs"
proof -
  from assms have "mHash (spec_definition lhs) = mHash (spec_definition rhs)"
    by (simp add: Specialization_eq_def Handle_eq_def hash_of_key_def)
  with assms(1) show ?thesis
    by (simp add: Specialization_Hash_def Specialization_eq_def)
qed

lemma commuting_combiner_ignores_order:
  assumes "\<And>seed a b. mix G (mix G seed a) b = mix G (mix G seed b) a"
  shows "Specialization_Hash G (v\<lparr>specializationConstants := c1 # c2 # cs\<rparr>) =
         Specialization_Hash G (v\<lparr>specializationConstants := c2 # c1 # cs\<rparr>)"
proof -
  have "combine_value G (combine_u32 G (combine_value G (combine_u32 G seed (constant_id c1))
            (constant_value c1)) (constant_id c2)) (constant_value c2) =
        combine_value G (combine_u32 G (combine_value G (combine_u32 G seed (constant_id c2))
            (constant_value c2)) (constant_id c1)) (constant_value c1)" for seed
  proof -
    let ?i1 = "Id (constant_id c1) :: ('a, 'b) mixed" and ?v1 = "Value (constant_value c1) :: ('a, 'b) mixed"
    let ?i2 = "Id (constant_id c2) :: ('a, 'b) mixed" and ?v2 = "Value (constant_value c2) :: ('a, 'b) mixed"
    have "mix G (mix G (mix G (mix G seed ?i1) ?v1) ?i2) ?v2
        = mix G (mix G (mix G (mix G seed ?i1) ?i2) ?v1) ?v2"
      by (simp only: assms [of "mix G seed ?i1" ?v1 ?i2])
    also have "\<dots> = mix G (mix G (mix G (mix G seed ?i2) ?i1) ?v1) ?v2"
      by (simp only: assms [of seed ?i1 ?i2])
    also have "\<dots> = mix G (mix G (mix G (mix G seed ?i2) ?i1) ?v2) ?v1"
      by (simp only: assms [of "mix G (mix G seed ?i2) ?i1" ?v1 ?v2])
    also have "\<dots> = mix G (mix G (mix G (mix G seed ?i2) ?v2) ?i1) ?v1"
      by (simp only: assms [of "mix G seed ?i2" ?i1 ?v2])
    finally show ?thesis by simp
  qed
  then show ?thesis by (simp add: Specialization_Hash_def)
qed

text \<open>
  What the lemmas above say of \<open>Specialization::operator==\<close> and
  \<open>Specialization::Hash\<close>: the comparison is that of the \<open>Impl\<close> and the key of the
  definition handles and of the three other fields; specializations that compare equal
  and whose handles store the hash of their key have the same hash; and the items enter
  \<open>combine_fast\<close> in the order of \<open>mixed_in\<close>. Whether two specializations that
  differ in the order of their constants get different hashes is decided by
  \<open>combine_fast\<close>, which is taken as given: with a combiner whose steps commute they
  get the same hash, though they compare unequal.
\<close>

end
